theory Spec2Isabelle
  imports Main
begin

section \<open>Data model of \<^verbatim>\<open>db_models.py\<close>\<close>

text \<open>
  Every SQLAlchemy model class is a record holding the columns the properties below
  read; a nullable column is an \<open>option\<close>, a \<^verbatim>\<open>nullable=False\<close> or primary-key column
  is not. Field names carry a table prefix, since two records cannot share a field
  name. A table is the list of its rows and the database is the record of its tables.
  Timestamps are integers.
\<close>

type_synonym datetime = int

text \<open>
  Modelled from the spec: the enum \<^verbatim>\<open>TaskStatus\<close> is imported from
  \<^verbatim>\<open>models/enums.py\<close>, which is not among the sources; its members are the statuses
  the specification lists for a task. The source names \<open>READY\<close>, \<open>MAPPED\<close>,
  \<open>VALIDATED\<close> and \<open>BAD\<close>.
\<close>

datatype TaskStatus =
  READY | LOCKED_FOR_MAPPING | MAPPED | LOCKED_FOR_VALIDATION | VALIDATED | BAD | SPLIT

record DbOrganisation =
  org_id :: int
  org_name :: string
  org_slug :: string
  org_logo :: "string option"
  org_description :: "string option"
  org_url :: "string option"

record DbProject =
  prj_id :: int
  prj_author_id :: int
  prj_organisation_id :: "int option"

record DbProjectInfo =
  pinfo_project_id :: int
  pinfo_name :: "string option"

record DbProjectChat =
  chat_id :: int
  chat_project_id :: int
  chat_user_id :: int
  chat_time_stamp :: datetime
  chat_message :: string

record DbTask =
  task_id :: int
  task_project_id :: int
  task_status :: "TaskStatus option"
  locked_by :: "int option"
  mapped_by :: "int option"
  validated_by :: "int option"

text \<open>
  Modelled from the spec: the enum \<^verbatim>\<open>TaskAction\<close> of the column
  \<^verbatim>\<open>task_history.action\<close> is imported from \<^verbatim>\<open>models/enums.py\<close>, which is not among the
  sources; its members are the actions the specification gives \<^verbatim>\<open>apply_action\<close>,
  and the unlocking its transition table names. The prefix keeps them apart from the
  statuses of the same name.
\<close>

datatype TaskAction =
  Act_LOCK_FOR_MAPPING | Act_MAPPED | Act_LOCK_FOR_VALIDATION | Act_VALIDATED
  | Act_MARK_BAD | Act_COMMENT | Act_SPLIT | Act_UNLOCK

record DbTaskHistory =
  th_id :: int
  th_project_id :: "int option"
  th_task_id :: int
  th_action :: TaskAction
  th_action_text :: "string option"
  th_action_date :: datetime
  th_user_id :: int

record DbTaskInvalidationHistory =
  tih_id :: int
  tih_project_id :: int
  tih_task_id :: int
  tih_is_closed :: "bool option"
  tih_mapper_id :: "int option"
  tih_invalidator_id :: "int option"
  tih_invalidated_date :: "datetime option"
  tih_invalidation_history_id :: "int option"
  tih_validator_id :: "int option"
  tih_validated_date :: "datetime option"

record DbTaskMappingIssue =
  tmi_id :: int
  tmi_task_history_id :: int
  tmi_issue :: string
  tmi_count :: int

record DbFeatures =
  feat_id :: int
  feat_project_id :: "int option"
  feat_task_id :: "int option"

record database =
  organisations :: "DbOrganisation list"
  projects :: "DbProject list"
  tasks :: "DbTask list"
  project_info :: "DbProjectInfo list"
  project_chat :: "DbProjectChat list"
  task_history :: "DbTaskHistory list"
  task_invalidation_history :: "DbTaskInvalidationHistory list"
  task_mapping_issues :: "DbTaskMappingIssue list"
  features :: "DbFeatures list"

text \<open>What a Python call raises, as a value.\<close>

datatype py_exception =
  HTTPException int string
  | AttributeError
  | IntegrityError
  | OtherException string

section \<open>Derived project counts\<close>

text \<open>
  \<^verbatim>\<open>DbProject.tasks_mapped\<close>, \<^verbatim>\<open>tasks_validated\<close> and \<^verbatim>\<open>tasks_bad\<close> are
  properties: each asks the session of the project for the tasks with one status,
  restricts them with \<^verbatim>\<open>with_parent(self)\<close> to the rows whose \<^verbatim>\<open>project_id\<close> is the
  project's id, and counts. \<^verbatim>\<open>object_session(self)\<close> is \<^verbatim>\<open>None\<close> for a project that is
  attached to no session, and the attribute access on it raises; the session is the
  first argument here.
\<close>

definition tasks_mapped :: "database option \<Rightarrow> DbProject \<Rightarrow> py_exception + nat" where
  "tasks_mapped object_session self =
     (case object_session of
        None \<Rightarrow> Inl AttributeError
      | Some db \<Rightarrow>
          Inr (length (filter (\<lambda>t. task_project_id t = prj_id self)
                 (filter (\<lambda>t. task_status t = Some MAPPED) (tasks db)))))"

definition tasks_validated :: "database option \<Rightarrow> DbProject \<Rightarrow> py_exception + nat" where
  "tasks_validated object_session self =
     (case object_session of
        None \<Rightarrow> Inl AttributeError
      | Some db \<Rightarrow>
          Inr (length (filter (\<lambda>t. task_project_id t = prj_id self)
                 (filter (\<lambda>t. task_status t = Some VALIDATED) (tasks db)))))"

definition tasks_bad :: "database option \<Rightarrow> DbProject \<Rightarrow> py_exception + nat" where
  "tasks_bad object_session self =
     (case object_session of
        None \<Rightarrow> Inl AttributeError
      | Some db \<Rightarrow>
          Inr (length (filter (\<lambda>t. task_project_id t = prj_id self)
                 (filter (\<lambda>t. task_status t = Some BAD) (tasks db)))))"

text \<open>The composite primary key of \<^verbatim>\<open>tasks\<close>: \<^verbatim>\<open>(id, project_id)\<close>.\<close>

definition task_key :: "DbTask \<Rightarrow> int \<times> int" where
  "task_key t = (task_id t, task_project_id t)"

definition pk_tasks :: "database \<Rightarrow> bool" where
  "pk_tasks db = distinct (map task_key (tasks db))"

text \<open>
  Writing the status column of one task, \<^verbatim>\<open>task.task_status = s\<close> and a commit: the
  row with the key gets the status, every other row and table stays as it is.
  \<open>mark_tasks\<close> does the write for a list of keys, one after the other.
\<close>

definition set_task_status :: "TaskStatus \<Rightarrow> int \<times> int \<Rightarrow> database \<Rightarrow> database" where
  "set_task_status s k db =
     db\<lparr>tasks := map (\<lambda>t. if task_key t = k then t\<lparr>task_status := Some s\<rparr> else t) (tasks db)\<rparr>"

definition mark_tasks :: "TaskStatus \<Rightarrow> (int \<times> int) list \<Rightarrow> database \<Rightarrow> database" where
  "mark_tasks s ks db = fold (set_task_status s) ks db"

section \<open>Constraints the schema declares\<close>

text \<open>
  Primary keys and \<^verbatim>\<open>unique=True\<close> columns: no two rows of the table agree on the key.
\<close>

definition unique_on :: "('a \<Rightarrow> 'k) \<Rightarrow> 'a list \<Rightarrow> bool" where
  "unique_on key rows = distinct (map key rows)"

definition primary_keys_ok :: "database \<Rightarrow> bool" where
  "primary_keys_ok db =
     (unique_on org_id (organisations db)
      \<and> unique_on prj_id (projects db)
      \<and> pk_tasks db
      \<and> unique_on pinfo_project_id (project_info db)
      \<and> unique_on chat_id (project_chat db)
      \<and> unique_on th_id (task_history db)
      \<and> unique_on tih_id (task_invalidation_history db)
      \<and> unique_on tmi_id (task_mapping_issues db)
      \<and> unique_on feat_id (features db))"

text \<open>\<^verbatim>\<open>DbOrganisation.name\<close> and \<^verbatim>\<open>DbOrganisation.slug\<close> are \<^verbatim>\<open>unique=True\<close>.\<close>

definition organisations_unique :: "database \<Rightarrow> bool" where
  "organisations_unique db =
     (unique_on org_name (organisations db) \<and> unique_on org_slug (organisations db))"

text \<open>
  A foreign key: a value that is not \<^verbatim>\<open>NULL\<close> is a key of the referenced table. A
  composite foreign key is checked only when none of its columns is \<^verbatim>\<open>NULL\<close> (the
  default \<^verbatim>\<open>MATCH SIMPLE\<close>).
\<close>

definition references_key :: "'k option \<Rightarrow> 'k list \<Rightarrow> bool" where
  "references_key v keys = (case v of None \<Rightarrow> True | Some k \<Rightarrow> k \<in> set keys)"

definition composite_key :: "int option \<Rightarrow> int option \<Rightarrow> (int \<times> int) option" where
  "composite_key i p =
     (case i of None \<Rightarrow> None | Some a \<Rightarrow> (case p of None \<Rightarrow> None | Some b \<Rightarrow> Some (a, b)))"

text \<open>The foreign keys to \<^verbatim>\<open>projects.id\<close> and \<^verbatim>\<open>organisations.id\<close>.\<close>

definition fk_projects_organisations :: "database \<Rightarrow> bool" where
  "fk_projects_organisations db =
     list_all (\<lambda>p. references_key (prj_organisation_id p) (map org_id (organisations db)))
       (projects db)"

definition fk_tasks_projects :: "database \<Rightarrow> bool" where
  "fk_tasks_projects db =
     list_all (\<lambda>t. task_project_id t \<in> set (map prj_id (projects db))) (tasks db)"

definition fk_project_info_projects :: "database \<Rightarrow> bool" where
  "fk_project_info_projects db =
     list_all (\<lambda>i. pinfo_project_id i \<in> set (map prj_id (projects db))) (project_info db)"

definition fk_project_chat_projects :: "database \<Rightarrow> bool" where
  "fk_project_chat_projects db =
     list_all (\<lambda>c. chat_project_id c \<in> set (map prj_id (projects db))) (project_chat db)"

definition fk_task_history_projects :: "database \<Rightarrow> bool" where
  "fk_task_history_projects db =
     list_all (\<lambda>h. references_key (th_project_id h) (map prj_id (projects db))) (task_history db)"

definition fk_task_invalidation_history_projects :: "database \<Rightarrow> bool" where
  "fk_task_invalidation_history_projects db =
     list_all (\<lambda>v. tih_project_id v \<in> set (map prj_id (projects db)))
       (task_invalidation_history db)"

definition fk_features_projects :: "database \<Rightarrow> bool" where
  "fk_features_projects db =
     list_all (\<lambda>f. references_key (feat_project_id f) (map prj_id (projects db))) (features db)"

text \<open>
  The composite foreign key \<^verbatim>\<open>fk_tasks\<close>, declared alike in \<^verbatim>\<open>task_history\<close>,
  \<^verbatim>\<open>task_invalidation_history\<close> and \<^verbatim>\<open>features\<close>:
  \<^verbatim>\<open>ForeignKeyConstraint([task_id, project_id], ["tasks.id", "tasks.project_id"])\<close>.
\<close>

definition task_history_fk_tasks :: "database \<Rightarrow> bool" where
  "task_history_fk_tasks db =
     list_all (\<lambda>h. references_key (composite_key (Some (th_task_id h)) (th_project_id h))
                     (map task_key (tasks db)))
       (task_history db)"

definition task_invalidation_history_fk_tasks :: "database \<Rightarrow> bool" where
  "task_invalidation_history_fk_tasks db =
     list_all (\<lambda>v. references_key (composite_key (Some (tih_task_id v)) (Some (tih_project_id v)))
                     (map task_key (tasks db)))
       (task_invalidation_history db)"

definition features_fk_tasks :: "database \<Rightarrow> bool" where
  "features_fk_tasks db =
     list_all (\<lambda>f. references_key (composite_key (feat_task_id f) (feat_project_id f))
                     (map task_key (tasks db)))
       (features db)"

text \<open>The foreign keys to \<^verbatim>\<open>task_history.id\<close>.\<close>

definition fk_invalidation_history :: "database \<Rightarrow> bool" where
  "fk_invalidation_history db =
     list_all (\<lambda>v. references_key (tih_invalidation_history_id v) (map th_id (task_history db)))
       (task_invalidation_history db)"

definition fk_task_mapping_issues_task_history :: "database \<Rightarrow> bool" where
  "fk_task_mapping_issues_task_history db =
     list_all (\<lambda>i. tmi_task_history_id i \<in> set (map th_id (task_history db)))
       (task_mapping_issues db)"

definition foreign_keys_ok :: "database \<Rightarrow> bool" where
  "foreign_keys_ok db =
     (fk_projects_organisations db
      \<and> fk_tasks_projects db
      \<and> fk_project_info_projects db
      \<and> fk_project_chat_projects db
      \<and> fk_task_history_projects db
      \<and> fk_task_invalidation_history_projects db
      \<and> fk_features_projects db
      \<and> task_history_fk_tasks db
      \<and> task_invalidation_history_fk_tasks db
      \<and> features_fk_tasks db
      \<and> fk_invalidation_history db
      \<and> fk_task_mapping_issues_task_history db)"

text \<open>
  The store accepts a state when every declared constraint over these tables holds.
  Columns that are \<^verbatim>\<open>nullable=False\<close> hold no \<^verbatim>\<open>NULL\<close> by their type. The foreign
  keys to \<^verbatim>\<open>users\<close>, \<^verbatim>\<open>licenses\<close>, \<^verbatim>\<open>xlsforms\<close>, \<^verbatim>\<open>qr_code\<close> and
  \<^verbatim>\<open>mapping_issue_categories\<close> reference tables that are not part of this state.
\<close>

definition schema_ok :: "database \<Rightarrow> bool" where
  "schema_ok db = (primary_keys_ok db \<and> organisations_unique db \<and> foreign_keys_ok db)"

text \<open>
  A flush and commit of the session: the store takes the new state, or refuses it
  with an integrity error and keeps the old one.
\<close>

definition commit :: "database \<Rightarrow> py_exception + database" where
  "commit new = (if schema_ok new then Inr new else Inl IntegrityError)"

section \<open>Relationships and their cascades\<close>

text \<open>
  A \<^verbatim>\<open>relationship\<close> loads the rows of the other table that reference the object by
  the foreign key between the two tables. \<^verbatim>\<open>DbTask.task_history\<close> joins on the
  composite key and is declared with \<^verbatim>\<open>order_by=desc(DbTaskHistory.action_date)\<close>.
\<close>

definition DbProject_tasks :: "database \<Rightarrow> DbProject \<Rightarrow> DbTask list" where
  "DbProject_tasks db p = filter (\<lambda>t. task_project_id t = prj_id p) (tasks db)"

definition DbProject_project_info :: "database \<Rightarrow> DbProject \<Rightarrow> DbProjectInfo list" where
  "DbProject_project_info db p = filter (\<lambda>i. pinfo_project_id i = prj_id p) (project_info db)"

definition DbProject_project_chat :: "database \<Rightarrow> DbProject \<Rightarrow> DbProjectChat list" where
  "DbProject_project_chat db p = filter (\<lambda>c. chat_project_id c = prj_id p) (project_chat db)"

definition DbTask_task_history :: "database \<Rightarrow> DbTask \<Rightarrow> DbTaskHistory list" where
  "DbTask_task_history db t =
     rev (sort_key th_action_date
       (filter (\<lambda>h. th_task_id h = task_id t \<and> th_project_id h = Some (task_project_id t))
          (task_history db)))"

definition DbTaskHistory_invalidation_history ::
  "database \<Rightarrow> DbTaskHistory \<Rightarrow> DbTaskInvalidationHistory list" where
  "DbTaskHistory_invalidation_history db h =
     filter (\<lambda>v. tih_invalidation_history_id v = Some (th_id h)) (task_invalidation_history db)"

definition DbTaskHistory_task_mapping_issues ::
  "database \<Rightarrow> DbTaskHistory \<Rightarrow> DbTaskMappingIssue list" where
  "DbTaskHistory_task_mapping_issues db h =
     filter (\<lambda>i. tmi_task_history_id i = th_id h) (task_mapping_issues db)"

text \<open>
  \<^verbatim>\<open>session.delete\<close> follows the relationships whose \<^verbatim>\<open>cascade\<close> holds \<^verbatim>\<open>delete\<close>
  (\<^verbatim>\<open>"all"\<close> does) and deletes every object it reaches by its primary key:
  \<^item> \<^verbatim>\<open>DbTaskHistory.invalidation_history\<close> and \<^verbatim>\<open>DbTaskHistory.task_mapping_issues\<close>,
    both \<^verbatim>\<open>cascade="all"\<close>;
  \<^item> \<^verbatim>\<open>DbTask.task_history\<close>, \<^verbatim>\<open>cascade="all"\<close>;
  \<^item> \<^verbatim>\<open>DbProject.tasks\<close> and \<^verbatim>\<open>DbProject.project_info\<close>,
    \<^verbatim>\<open>cascade="all, delete, delete-orphan"\<close>, and \<^verbatim>\<open>DbProject.project_chat\<close>,
    \<^verbatim>\<open>cascade="all"\<close>.
  \<^verbatim>\<open>DbFeatures.project\<close> gives the project the collection \<^verbatim>\<open>features\<close> with no delete
  cascade: the session sets the \<^verbatim>\<open>project_id\<close> of those rows to \<^verbatim>\<open>NULL\<close>. No
  relationship leads from a project or a task to \<^verbatim>\<open>task_invalidation_history\<close>, and
  none from a task to \<^verbatim>\<open>features\<close>. The other relationships of a project and a task
  (\<^verbatim>\<open>qr_code\<close>, teams, allowed users, user roles) lead to tables that are not part of
  this state.
\<close>

definition cascade_task_history :: "database \<Rightarrow> DbTaskHistory list \<Rightarrow> database" where
  "cascade_task_history db hs =
     db\<lparr>task_history := filter (\<lambda>h. th_id h \<notin> set (map th_id hs)) (task_history db),
        task_invalidation_history :=
          filter (\<lambda>v. tih_id v \<notin>
                    set (map tih_id (concat (map (DbTaskHistory_invalidation_history db) hs))))
            (task_invalidation_history db),
        task_mapping_issues :=
          filter (\<lambda>i. tmi_id i \<notin>
                    set (map tmi_id (concat (map (DbTaskHistory_task_mapping_issues db) hs))))
            (task_mapping_issues db)\<rparr>"

definition cascade_tasks :: "database \<Rightarrow> DbTask list \<Rightarrow> database" where
  "cascade_tasks db ts =
     (cascade_task_history db (concat (map (DbTask_task_history db) ts)))
       \<lparr>tasks := filter (\<lambda>t. task_key t \<notin> set (map task_key ts)) (tasks db)\<rparr>"

definition cascade_project :: "database \<Rightarrow> DbProject \<Rightarrow> database" where
  "cascade_project db p =
     (cascade_tasks db (DbProject_tasks db p))
       \<lparr>projects := filter (\<lambda>q. prj_id q \<noteq> prj_id p) (projects db),
        project_info :=
          filter (\<lambda>i. pinfo_project_id i \<notin> set (map pinfo_project_id (DbProject_project_info db p)))
            (project_info db),
        project_chat :=
          filter (\<lambda>c. chat_id c \<notin> set (map chat_id (DbProject_project_chat db p)))
            (project_chat db),
        features :=
          map (\<lambda>f. if feat_project_id f = Some (prj_id p) then f\<lparr>feat_project_id := None\<rparr> else f)
            (features db)\<rparr>"

text \<open>\<^verbatim>\<open>db.delete(obj); db.commit()\<close> for a task and for a project.\<close>

definition session_delete_task :: "database \<Rightarrow> DbTask \<Rightarrow> py_exception + database" where
  "session_delete_task db t = commit (cascade_tasks db [t])"

definition session_delete_project :: "database \<Rightarrow> DbProject \<Rightarrow> py_exception + database" where
  "session_delete_project db p = commit (cascade_project db p)"

section \<open>Invalidation history\<close>

text \<open>
  \<^verbatim>\<open>DbTaskInvalidationHistory\<close> declares a primary key, its foreign keys and three
  indexes, and no constraint over \<^verbatim>\<open>is_closed\<close>, whose default is \<^verbatim>\<open>False\<close>. The open
  records of a task are the rows of the task with \<^verbatim>\<open>is_closed = false\<close>, the closed
  ones those with \<^verbatim>\<open>is_closed = true\<close>.
\<close>

definition open_records :: "database \<Rightarrow> int \<times> int \<Rightarrow> DbTaskInvalidationHistory list" where
  "open_records db k =
     filter (\<lambda>v. (tih_task_id v, tih_project_id v) = k \<and> tih_is_closed v = Some False)
       (task_invalidation_history db)"

definition closed_records :: "database \<Rightarrow> int \<times> int \<Rightarrow> DbTaskInvalidationHistory list" where
  "closed_records db k =
     filter (\<lambda>v. (tih_task_id v, tih_project_id v) = k \<and> tih_is_closed v = Some True)
       (task_invalidation_history db)"

section \<open>The organisation routes of \<^verbatim>\<open>organization_routes.py\<close>\<close>

text \<open>
  A route returns its value or raises, and leaves a state of the store. The functions of
  \<^verbatim>\<open>organization_crud\<close> that a route calls, and the session's delete, are arguments of
  the route: the module is not among the sources. Each may raise. A JSON object is a
  list of pairs, an uploaded file is its name.
\<close>

definition get_organization_detail ::
  "(database \<Rightarrow> int \<Rightarrow> py_exception + DbOrganisation option) \<Rightarrow> database \<Rightarrow> int
     \<Rightarrow> py_exception + DbOrganisation" where
  "get_organization_detail get_organisation_by_id db organization_id =
     (case get_organisation_by_id db organization_id of
        Inl e \<Rightarrow> Inl e
      | Inr None \<Rightarrow> Inl (HTTPException 404 ''Organization not found'')
      | Inr (Some organization) \<Rightarrow> Inr organization)"

definition create_organization ::
  "(database \<Rightarrow> string \<Rightarrow> py_exception + DbOrganisation option)
     \<Rightarrow> (database \<Rightarrow> string \<Rightarrow> string option \<Rightarrow> string option \<Rightarrow> string option
           \<Rightarrow> (py_exception + 'r) \<times> database)
     \<Rightarrow> database \<Rightarrow> string \<Rightarrow> string option \<Rightarrow> string option \<Rightarrow> string option
     \<Rightarrow> (py_exception + (string \<times> string) list) \<times> database" where
  "create_organization get_organisation_by_name crud_create_organization db name description url logo =
     (case get_organisation_by_name db name of
        Inl e \<Rightarrow> (Inl e, db)
      | Inr (Some found) \<Rightarrow>
          (Inl (HTTPException 400 (''Organization already exists with the name '' @ name)), db)
      | Inr None \<Rightarrow>
          (case crud_create_organization db name description url logo of
             (Inl e, db') \<Rightarrow> (Inl e, db')
           | (Inr created, db') \<Rightarrow>
               (Inr [(''Message'', ''Organization Created Successfully.'')], db')))"

text \<open>
  \<^verbatim>\<open>except Exception as e\<close> catches whatever the update raises; \<open>str_of\<close> is Python's
  \<^verbatim>\<open>str(e)\<close>, which the f-string puts into the detail.
\<close>

definition update_organization ::
  "(py_exception \<Rightarrow> string)
     \<Rightarrow> (database \<Rightarrow> int \<Rightarrow> string option \<Rightarrow> string option \<Rightarrow> string option \<Rightarrow> string option
           \<Rightarrow> (py_exception + 'r) \<times> database)
     \<Rightarrow> database \<Rightarrow> int \<Rightarrow> string option \<Rightarrow> string option \<Rightarrow> string option \<Rightarrow> string option
     \<Rightarrow> (py_exception + 'r) \<times> database" where
  "update_organization str_of update_organization_info db organization_id name description url logo =
     (case update_organization_info db organization_id name description url logo of
        (Inr organization, db') \<Rightarrow> (Inr organization, db')
      | (Inl e, db') \<Rightarrow>
          (Inl (HTTPException 400 (''Error updating organization: '' @ str_of e)), db'))"

definition delete_organisations ::
  "(database \<Rightarrow> int \<Rightarrow> py_exception + DbOrganisation option)
     \<Rightarrow> (database \<Rightarrow> DbOrganisation \<Rightarrow> py_exception + database)
     \<Rightarrow> database \<Rightarrow> int \<Rightarrow> (py_exception + (string \<times> string) list) \<times> database" where
  "delete_organisations get_organisation_by_id session_delete db organization_id =
     (case get_organisation_by_id db organization_id of
        Inl e \<Rightarrow> (Inl e, db)
      | Inr None \<Rightarrow> (Inl (HTTPException 404 ''Organization not found''), db)
      | Inr (Some organization) \<Rightarrow>
          (case session_delete db organization of
             Inl e \<Rightarrow> (Inl e, db)
           | Inr db' \<Rightarrow> (Inr [(''Message'', ''Organization Deleted Successfully.'')], db')))"

text \<open>
  Modelled from the spec: \<^verbatim>\<open>organization_crud.get_organisation_by_id\<close> and
  \<^verbatim>\<open>organization_crud.get_organisation_by_name\<close> are not among the sources; they are
  taken as the queries their names and the routes' comments describe, the first row
  of \<^verbatim>\<open>organisations\<close> with the id, and with the name.
\<close>

definition crud_get_organisation_by_id ::
  "database \<Rightarrow> int \<Rightarrow> py_exception + DbOrganisation option" where
  "crud_get_organisation_by_id db organization_id =
     Inr (find (\<lambda>org. org_id org = organization_id) (organisations db))"

definition crud_get_organisation_by_name ::
  "database \<Rightarrow> string \<Rightarrow> py_exception + DbOrganisation option" where
  "crud_get_organisation_by_name db name =
     Inr (find (\<lambda>org. org_name org = name) (organisations db))"

section \<open>The task state machine of the specification\<close>

text \<open>
  Modelled from the spec: \<^verbatim>\<open>apply_action\<close>, the state machine of section 4.1 of the
  specification, is not among the sources (they hold the columns it reads and writes).
  Each part below follows one sentence of that section.

  The transition table, "by current status, allowed actions": \<open>READY\<close> allows locking
  for mapping; \<open>LOCKED_FOR_MAPPING\<close> allows mapped, comment and "unlock to READY";
  \<open>MAPPED\<close> allows locking for validation and comment; \<open>LOCKED_FOR_VALIDATION\<close>
  allows validated, mark bad, comment and "unlock to MAPPED"; \<open>VALIDATED\<close> "may be
  reopened by an explicit invalidate action, which ... reverts status to
  LOCKED_FOR_VALIDATION or MAPPED depending on policy", the invalidation being
  "MARK_BAD applied after VALIDATED". The policy is an argument. "COMMENT is a no-op
  on status". An action other than these results in the status it is named after.
\<close>

datatype transition_error = InvalidTransition | LockConflict int | NotFound

datatype reopen_policy = Reopen_LOCKED_FOR_VALIDATION | Reopen_MAPPED

fun reopen_status :: "reopen_policy \<Rightarrow> TaskStatus" where
  "reopen_status Reopen_LOCKED_FOR_VALIDATION = LOCKED_FOR_VALIDATION"
| "reopen_status Reopen_MAPPED = MAPPED"

fun transition_table :: "reopen_policy \<Rightarrow> TaskStatus \<Rightarrow> TaskAction \<Rightarrow> TaskStatus option" where
  "transition_table pol READY Act_LOCK_FOR_MAPPING = Some LOCKED_FOR_MAPPING"
| "transition_table pol LOCKED_FOR_MAPPING Act_MAPPED = Some MAPPED"
| "transition_table pol LOCKED_FOR_MAPPING Act_COMMENT = Some LOCKED_FOR_MAPPING"
| "transition_table pol LOCKED_FOR_MAPPING Act_UNLOCK = Some READY"
| "transition_table pol MAPPED Act_LOCK_FOR_VALIDATION = Some LOCKED_FOR_VALIDATION"
| "transition_table pol MAPPED Act_COMMENT = Some MAPPED"
| "transition_table pol LOCKED_FOR_VALIDATION Act_VALIDATED = Some VALIDATED"
| "transition_table pol LOCKED_FOR_VALIDATION Act_MARK_BAD = Some BAD"
| "transition_table pol LOCKED_FOR_VALIDATION Act_COMMENT = Some LOCKED_FOR_VALIDATION"
| "transition_table pol LOCKED_FOR_VALIDATION Act_UNLOCK = Some MAPPED"
| "transition_table pol VALIDATED Act_MARK_BAD = Some (reopen_status pol)"
| "transition_table pol _ _ = None"

text \<open>
  "Locking is exclusive: only one user may hold \<^verbatim>\<open>locked_by\<close> at a time; attempting to
  lock an already-locked task fails with a Conflict error naming the current holder",
  and the failure mode \<open>LockConflict\<close> is "task already locked by another user": a
  task that is locked conflicts with every lock attempt, and with every action of a
  user who is not the holder.
\<close>

fun lock_action :: "TaskAction \<Rightarrow> bool" where
  "lock_action Act_LOCK_FOR_MAPPING = True"
| "lock_action Act_LOCK_FOR_VALIDATION = True"
| "lock_action _ = False"

definition lock_conflict :: "DbTask \<Rightarrow> TaskAction \<Rightarrow> int \<Rightarrow> int option" where
  "lock_conflict task action actor =
     (case locked_by task of
        None \<Rightarrow> None
      | Some holder \<Rightarrow> if lock_action action \<or> holder \<noteq> actor then Some holder else None)"

text \<open>
  "Updates \<^verbatim>\<open>task.status\<close> and the relevant actor field (\<^verbatim>\<open>locked_by\<close> /
  \<^verbatim>\<open>mapped_by\<close> / \<^verbatim>\<open>validated_by\<close> as appropriate)": a lock is held from the locking
  action until the task leaves the locked status; a task reopened into
  \<open>LOCKED_FOR_VALIDATION\<close> is held by the user who reopened it.
\<close>

fun record_actor :: "TaskAction \<Rightarrow> TaskStatus \<Rightarrow> int \<Rightarrow> DbTask \<Rightarrow> DbTask" where
  "record_actor Act_LOCK_FOR_MAPPING s' actor t = t\<lparr>locked_by := Some actor\<rparr>"
| "record_actor Act_LOCK_FOR_VALIDATION s' actor t = t\<lparr>locked_by := Some actor\<rparr>"
| "record_actor Act_MAPPED s' actor t = t\<lparr>locked_by := None, mapped_by := Some actor\<rparr>"
| "record_actor Act_VALIDATED s' actor t = t\<lparr>locked_by := None, validated_by := Some actor\<rparr>"
| "record_actor Act_MARK_BAD s' actor t =
     t\<lparr>locked_by := (if s' = LOCKED_FOR_VALIDATION then Some actor else None)\<rparr>"
| "record_actor Act_UNLOCK s' actor t = t\<lparr>locked_by := None\<rparr>"
| "record_actor Act_COMMENT s' actor t = t"
| "record_actor Act_SPLIT s' actor t = t"

definition step_task :: "TaskAction \<Rightarrow> TaskStatus \<Rightarrow> int \<Rightarrow> DbTask \<Rightarrow> DbTask" where
  "step_task action s' actor t = (record_actor action s' actor t)\<lparr>task_status := Some s'\<rparr>"

text \<open>
  The invalidation records. "Invalidation (MARK_BAD applied after VALIDATED) closes the
  current TaskInvalidationHistory record (is_closed=true, sets
  invalidator_id/invalidated_date)", and the invalidate action "creates a new
  TaskInvalidationHistory cycle": the record of the task that is open is closed, and a
  new, open record is added for the cycle that starts, with the mapper, the
  invalidator and the history row of the action. "If the task is re-validated later,
  the same record is updated with validator_id/validated_date rather than creating a
  new one", and the round trip of section 8 leaves that record closed: the open
  record of the task gets the validator and is closed.
\<close>

definition record_invalidation ::
  "DbTaskInvalidationHistory list \<Rightarrow> int \<times> int \<Rightarrow> DbTask \<Rightarrow> int \<Rightarrow> int \<Rightarrow> datetime
     \<Rightarrow> DbTaskInvalidationHistory list" where
  "record_invalidation records k task actor history_id now =
     map (\<lambda>v. if (tih_task_id v, tih_project_id v) = k \<and> tih_is_closed v = Some False
              then v\<lparr>tih_is_closed := Some True, tih_invalidator_id := Some actor,
                     tih_invalidated_date := Some now\<rparr>
              else v) records
     @ [\<lparr>tih_id = 1 + fold max (map tih_id records) 0, tih_project_id = snd k,
         tih_task_id = fst k, tih_is_closed = Some False, tih_mapper_id = mapped_by task,
         tih_invalidator_id = Some actor, tih_invalidated_date = Some now,
         tih_invalidation_history_id = Some history_id, tih_validator_id = None,
         tih_validated_date = None\<rparr>]"

definition record_validation ::
  "DbTaskInvalidationHistory list \<Rightarrow> int \<times> int \<Rightarrow> int \<Rightarrow> datetime
     \<Rightarrow> DbTaskInvalidationHistory list" where
  "record_validation records k actor now =
     map (\<lambda>v. if (tih_task_id v, tih_project_id v) = k \<and> tih_is_closed v = Some False
              then v\<lparr>tih_is_closed := Some True, tih_validator_id := Some actor,
                     tih_validated_date := Some now\<rparr>
              else v) records"

text \<open>
  A legal transition: the task gets its status and actor, "a new TaskHistory row with
  the current timestamp" is appended, and the invalidation records follow.
\<close>

definition apply_transition ::
  "database \<Rightarrow> int \<times> int \<Rightarrow> DbTask \<Rightarrow> TaskAction \<Rightarrow> TaskStatus \<Rightarrow> int \<Rightarrow> string option
     \<Rightarrow> datetime \<Rightarrow> DbTaskHistory \<times> database" where
  "apply_transition db k task action s' actor action_text now =
     (let row = \<lparr>th_id = 1 + fold max (map th_id (task_history db)) 0,
                 th_project_id = Some (snd k), th_task_id = fst k,
                 th_action = action, th_action_text = action_text,
                 th_action_date = now, th_user_id = actor\<rparr>
      in (row,
          db\<lparr>tasks := map (\<lambda>t. if task_key t = k then step_task action s' actor t else t)
                        (tasks db),
             task_history := task_history db @ [row],
             task_invalidation_history :=
               (if action = Act_MARK_BAD \<and> task_status task = Some VALIDATED
                then record_invalidation (task_invalidation_history db) k task actor
                       (th_id row) now
                else if action = Act_VALIDATED
                then record_validation (task_invalidation_history db) k actor now
                else task_invalidation_history db)\<rparr>))"

text \<open>
  \<^verbatim>\<open>apply_action(task, action, actor, text)\<close>, with its failure modes "InvalidTransition
  (action not legal from current status), LockConflict (task already locked by another
  user), NotFound (task/project id does not exist)". A failure leaves the store as it
  was.
\<close>

definition apply_action ::
  "reopen_policy \<Rightarrow> database \<Rightarrow> int \<times> int \<Rightarrow> TaskAction \<Rightarrow> int \<Rightarrow> string option \<Rightarrow> datetime
     \<Rightarrow> (transition_error + DbTaskHistory) \<times> database" where
  "apply_action pol db k action actor action_text now =
     (case find (\<lambda>t. task_key t = k) (tasks db) of
        None \<Rightarrow> (Inl NotFound, db)
      | Some task \<Rightarrow>
          (case lock_conflict task action actor of
             Some holder \<Rightarrow> (Inl (LockConflict holder), db)
           | None \<Rightarrow>
               (case (case task_status task of
                        None \<Rightarrow> None
                      | Some s \<Rightarrow> transition_table pol s action) of
                  None \<Rightarrow> (Inl InvalidTransition, db)
                | Some s' \<Rightarrow>
                    (case apply_transition db k task action s' actor action_text now of
                       (row, db') \<Rightarrow> (Inr row, db')))))"

text \<open>The states the state machine reaches from a state.\<close>

inductive reachable :: "reopen_policy \<Rightarrow> database \<Rightarrow> database \<Rightarrow> bool"
  for pol :: reopen_policy and init :: database where
  start: "reachable pol init init"
| step: "reachable pol init db \<Longrightarrow>
         reachable pol init (snd (apply_action pol db k action actor action_text now))"

section \<open>Example states\<close>

text \<open>
  An example state: project 1 with five tasks that are ready, and project 2 with one
  task that is mapped already.
\<close>

definition example_task :: "int \<Rightarrow> int \<Rightarrow> TaskStatus \<Rightarrow> DbTask" where
  "example_task i p s =
     \<lparr>task_id = i, task_project_id = p, task_status = Some s,
      locked_by = None, mapped_by = None, validated_by = None\<rparr>"

definition example_project :: "int \<Rightarrow> DbProject" where
  "example_project p = \<lparr>prj_id = p, prj_author_id = 7, prj_organisation_id = None\<rparr>"

definition empty_database :: database where
  "empty_database =
     \<lparr>organisations = [], projects = [], tasks = [], project_info = [], project_chat = [],
      task_history = [], task_invalidation_history = [], task_mapping_issues = [],
      features = []\<rparr>"

definition five_tasks :: database where
  "five_tasks =
     empty_database
       \<lparr>projects := [example_project 1, example_project 2],
        tasks := [example_task 1 1 READY, example_task 2 1 READY, example_task 3 1 READY,
                  example_task 4 1 READY, example_task 5 1 READY, example_task 1 2 MAPPED]\<rparr>"

text \<open>
  A fuller state. Project 1 has two tasks with two history rows each, an invalidation
  record and an issue linked to its history, its info, a chat message and a feature.
  Project 2 has a task with the id 1 as well, with rows of its own.
\<close>

definition example_history :: "int \<Rightarrow> int \<Rightarrow> int \<Rightarrow> datetime \<Rightarrow> DbTaskHistory" where
  "example_history i p t d =
     \<lparr>th_id = i, th_project_id = Some p, th_task_id = t, th_action = Act_COMMENT,
      th_action_text = None, th_action_date = d, th_user_id = 7\<rparr>"

definition example_invalidation ::
  "int \<Rightarrow> int \<Rightarrow> int \<Rightarrow> bool option \<Rightarrow> int option \<Rightarrow> DbTaskInvalidationHistory" where
  "example_invalidation i p t c h =
     \<lparr>tih_id = i, tih_project_id = p, tih_task_id = t, tih_is_closed = c,
      tih_mapper_id = None, tih_invalidator_id = None, tih_invalidated_date = None,
      tih_invalidation_history_id = h, tih_validator_id = None, tih_validated_date = None\<rparr>"

definition example_store :: database where
  "example_store =
     \<lparr>organisations =
        [\<lparr>org_id = 1, org_name = ''a-b'', org_slug = ''a-b'', org_logo = None,
          org_description = None, org_url = None\<rparr>],
      projects = [example_project 1, example_project 2],
      tasks = [example_task 1 1 VALIDATED, example_task 2 1 MAPPED, example_task 1 2 READY],
      project_info =
        [\<lparr>pinfo_project_id = 1, pinfo_name = Some ''one''\<rparr>,
         \<lparr>pinfo_project_id = 2, pinfo_name = Some ''two''\<rparr>],
      project_chat =
        [\<lparr>chat_id = 1, chat_project_id = 1, chat_user_id = 7, chat_time_stamp = 5,
          chat_message = ''hello''\<rparr>,
         \<lparr>chat_id = 2, chat_project_id = 2, chat_user_id = 7, chat_time_stamp = 6,
          chat_message = ''hello''\<rparr>],
      task_history =
        [example_history 1 1 1 10, example_history 2 1 1 30, example_history 3 1 2 20,
         example_history 4 1 2 40, example_history 5 2 1 15],
      task_invalidation_history =
        [example_invalidation 1 1 1 (Some True) (Some 2),
         example_invalidation 2 2 1 (Some False) (Some 5)],
      task_mapping_issues =
        [\<lparr>tmi_id = 1, tmi_task_history_id = 2, tmi_issue = ''roads'', tmi_count = 3\<rparr>,
         \<lparr>tmi_id = 2, tmi_task_history_id = 5, tmi_issue = ''roads'', tmi_count = 1\<rparr>],
      features =
        [\<lparr>feat_id = 1, feat_project_id = Some 1, feat_task_id = Some 1\<rparr>,
         \<lparr>feat_id = 2, feat_project_id = Some 2, feat_task_id = None\<rparr>]\<rparr>"

text \<open>
  A state with one project and one task, which is validated; the same with an
  invalidation record of the task that is open and linked to no history row; and the
  same with the task locked for mapping by user 7.
\<close>

definition one_task_store :: database where
  "one_task_store =
     empty_database
       \<lparr>projects := [example_project 1], tasks := [example_task 1 1 VALIDATED]\<rparr>"

definition unlinked_store :: database where
  "unlinked_store =
     one_task_store
       \<lparr>task_invalidation_history := [example_invalidation 1 1 1 (Some False) None]\<rparr>"

definition locked_task_store :: database where
  "locked_task_store =
     one_task_store
       \<lparr>tasks := [(example_task 1 1 LOCKED_FOR_MAPPING)\<lparr>locked_by := Some 7\<rparr>]\<rparr>"

text \<open>
  A state whose history and features hold a row that names task 2 and no project,
  where the only task 2 is the one of project 1.
\<close>

definition null_project_store :: database where
  "null_project_store =
     empty_database
       \<lparr>projects := [example_project 1],
        tasks := [example_task 2 1 READY],
        task_history := [(example_history 1 1 2 10)\<lparr>th_project_id := None\<rparr>],
        features := [\<lparr>feat_id = 1, feat_project_id = None, feat_task_id = Some 2\<rparr>]\<rparr>"

section \<open>Properties\<close>

subsection \<open>Counts of a project\<close>

lemma task_key_status_update [simp]: "task_key (t\<lparr>task_status := s\<rparr>) = task_key t"
  by (simp add: task_key_def)

lemma tasks_mark_tasks:
  "tasks (mark_tasks s ks db) =
     map (\<lambda>t. if task_key t \<in> set ks then t\<lparr>task_status := Some s\<rparr> else t) (tasks db)"
proof (induction ks arbitrary: db)
  case Nil
  then show ?case by (simp add: mark_tasks_def)
next
  case (Cons k ks)
  have "mark_tasks s (k # ks) db = mark_tasks s ks (set_task_status s k db)"
    by (simp add: mark_tasks_def)
  then show ?case
    by (simp add: Cons.IH) (simp add: set_task_status_def)
qed

lemma projects_mark_tasks: "projects (mark_tasks s ks db) = projects db"
  unfolding mark_tasks_def
  by (induction ks arbitrary: db) (simp_all add: set_task_status_def)

lemma length_filter_keys:
  assumes "distinct (map f xs)" "distinct ks" "set ks \<subseteq> f ` set xs"
  shows "length (filter (\<lambda>x. f x \<in> set ks) xs) = length ks"
proof -
  have "length (filter (\<lambda>x. f x \<in> set ks) xs) = length (filter (\<lambda>k. k \<in> set ks) (map f xs))"
    by (simp add: filter_map o_def)
  also have "\<dots> = card (set (filter (\<lambda>k. k \<in> set ks) (map f xs)))"
    using assms(1) by (simp add: distinct_card del: set_filter)
  also have "set (filter (\<lambda>k. k \<in> set ks) (map f xs)) = set ks"
    using assms(3) by auto
  also have "card (set ks) = length ks"
    using assms(2) by (simp add: distinct_card)
  finally show ?thesis .
qed

lemma count_rows_card:
  assumes "distinct (map f xs)"
  shows "length (filter (\<lambda>x. Q x \<and> P x) xs) = card {x \<in> set xs. P x \<and> Q x}"
proof -
  have "distinct xs" using assms by (simp add: distinct_map)
  then have "distinct (filter (\<lambda>x. Q x \<and> P x) xs)" by simp
  then have "length (filter (\<lambda>x. Q x \<and> P x) xs) = card (set (filter (\<lambda>x. Q x \<and> P x) xs))"
    by (rule distinct_card [symmetric])
  also have "set (filter (\<lambda>x. Q x \<and> P x) xs) = {x \<in> set xs. P x \<and> Q x}" by auto
  finally show ?thesis .
qed

text \<open>
  Claim C2. In a session, the three counts of a project are the numbers of rows of
  \<^verbatim>\<open>tasks\<close> that carry the project's id and the status \<open>MAPPED\<close>, \<open>VALIDATED\<close> and
  \<open>BAD\<close>; with the primary key of \<^verbatim>\<open>tasks\<close> in force these rows are as many as the
  tasks. The counts are read off the table at the moment of the call, and the project
  row holds none of them: writing \<open>MAPPED\<close> into the status of \<open>n\<close> of a project's
  tasks, where none was mapped, leaves the project rows as they were and makes the
  mapped count \<open>n\<close>; writing \<open>VALIDATED\<close> into the same tasks makes it \<open>0\<close>.
\<close>

theorem project_counts_recomputed:
  assumes "pk_tasks db"
  shows "tasks_mapped (Some db) p =
           Inr (card {t \<in> set (tasks db). task_project_id t = prj_id p \<and> task_status t = Some MAPPED})
       \<and> tasks_validated (Some db) p =
           Inr (card {t \<in> set (tasks db). task_project_id t = prj_id p \<and> task_status t = Some VALIDATED})
       \<and> tasks_bad (Some db) p =
           Inr (card {t \<in> set (tasks db). task_project_id t = prj_id p \<and> task_status t = Some BAD})
       \<and> (distinct ks
            \<and> set ks \<subseteq> set (map task_key (filter (\<lambda>t. task_project_id t = prj_id p) (tasks db)))
            \<and> tasks_mapped (Some db) p = Inr 0
          \<longrightarrow> projects (mark_tasks MAPPED ks db) = projects db
            \<and> tasks_mapped (Some (mark_tasks MAPPED ks db)) p = Inr (length ks)
            \<and> projects (mark_tasks VALIDATED ks (mark_tasks MAPPED ks db)) = projects db
            \<and> tasks_mapped (Some (mark_tasks VALIDATED ks (mark_tasks MAPPED ks db))) p = Inr 0)"
proof -
  have d: "distinct (map task_key (tasks db))"
    using assms by (simp add: pk_tasks_def)
  have c1: "tasks_mapped (Some db) p =
      Inr (card {t \<in> set (tasks db). task_project_id t = prj_id p \<and> task_status t = Some MAPPED})"
    by (simp add: tasks_mapped_def count_rows_card [OF d])
  have c2: "tasks_validated (Some db) p =
      Inr (card {t \<in> set (tasks db). task_project_id t = prj_id p \<and> task_status t = Some VALIDATED})"
    by (simp add: tasks_validated_def count_rows_card [OF d])
  have c3: "tasks_bad (Some db) p =
      Inr (card {t \<in> set (tasks db). task_project_id t = prj_id p \<and> task_status t = Some BAD})"
    by (simp add: tasks_bad_def count_rows_card [OF d])
  have sc: "tasks_mapped (Some (mark_tasks MAPPED ks db)) p = Inr (length ks)
          \<and> tasks_mapped (Some (mark_tasks VALIDATED ks (mark_tasks MAPPED ks db))) p = Inr 0"
    if dk: "distinct ks"
      and sub: "set ks \<subseteq> set (map task_key (filter (\<lambda>t. task_project_id t = prj_id p) (tasks db)))"
      and z: "tasks_mapped (Some db) p = Inr 0"
  proof -
    have none: "\<not> (task_project_id t = prj_id p \<and> task_status t = Some MAPPED)"
      if "t \<in> set (tasks db)" for t
    proof -
      have "filter (\<lambda>t. task_project_id t = prj_id p)
              (filter (\<lambda>t. task_status t = Some MAPPED) (tasks db)) = []"
        using z by (simp add: tasks_mapped_def)
      then show ?thesis using that by (auto simp: filter_empty_conv)
    qed
    have own: "task_project_id t = prj_id p" if "t \<in> set (tasks db)" "task_key t \<in> set ks" for t
    proof -
      from sub that(2) obtain u where u: "u \<in> set (tasks db)" "task_project_id u = prj_id p"
        "task_key t = task_key u" by auto
      then show ?thesis by (simp add: task_key_def)
    qed
    have m: "filter (\<lambda>t. task_project_id t = prj_id p) (filter (\<lambda>t. task_status t = Some MAPPED)
               (map (\<lambda>t. if task_key t \<in> set ks then t\<lparr>task_status := Some MAPPED\<rparr> else t) xs))
        = map (\<lambda>t. t\<lparr>task_status := Some MAPPED\<rparr>) (filter (\<lambda>t. task_key t \<in> set ks) xs)"
      if "set xs \<subseteq> set (tasks db)" for xs
      using that none own by (induction xs) auto
    have "tasks_mapped (Some (mark_tasks MAPPED ks db)) p
        = Inr (length (filter (\<lambda>t. task_key t \<in> set ks) (tasks db)))"
      by (simp only: tasks_mapped_def tasks_mark_tasks m [OF subset_refl] option.case length_map)
    also have "length (filter (\<lambda>t. task_key t \<in> set ks) (tasks db)) = length ks"
      using d dk sub by (intro length_filter_keys) auto
    finally have a: "tasks_mapped (Some (mark_tasks MAPPED ks db)) p = Inr (length ks)" .
    have v: "filter (\<lambda>t. task_project_id t = prj_id p) (filter (\<lambda>t. task_status t = Some MAPPED)
               (map (\<lambda>t. if task_key t \<in> set ks then t\<lparr>task_status := Some VALIDATED\<rparr> else t)
                 (map (\<lambda>t. if task_key t \<in> set ks then t\<lparr>task_status := Some MAPPED\<rparr> else t) xs)))
        = []"
      if "set xs \<subseteq> set (tasks db)" for xs
      using that none by (induction xs) auto
    have b: "tasks_mapped (Some (mark_tasks VALIDATED ks (mark_tasks MAPPED ks db))) p = Inr 0"
      by (simp only: tasks_mapped_def tasks_mark_tasks v [OF subset_refl] option.case list.size)
    from a b show ?thesis by simp
  qed
  from c1 c2 c3 sc show ?thesis
    by (simp add: projects_mark_tasks)
qed

text \<open>
  The claim's own numbers: three of the five tasks of project 1 are marked, and the
  mapped task of project 2 never counts for project 1.
\<close>

theorem project_counts_recomputed_witness:
  "pk_tasks five_tasks
   \<and> tasks_mapped (Some five_tasks) (example_project 1) = Inr 0
   \<and> tasks_mapped (Some (mark_tasks MAPPED [(1, 1), (3, 1), (4, 1)] five_tasks)) (example_project 1)
       = Inr 3
   \<and> tasks_mapped
       (Some (mark_tasks VALIDATED [(1, 1), (3, 1), (4, 1)]
          (mark_tasks MAPPED [(1, 1), (3, 1), (4, 1)] five_tasks))) (example_project 1)
       = Inr 0"
proof -
  have pk: "pk_tasks five_tasks"
    by (simp add: pk_tasks_def five_tasks_def empty_database_def example_task_def task_key_def)
  have z: "tasks_mapped (Some five_tasks) (example_project 1) = Inr 0"
    by (simp add: tasks_mapped_def five_tasks_def empty_database_def example_task_def
        example_project_def)
  have h: "distinct [(1, 1), (3, 1), (4::int, 1::int)]
         \<and> set [(1, 1), (3, 1), (4, 1)]
             \<subseteq> set (map task_key (filter (\<lambda>t. task_project_id t = prj_id (example_project 1))
                   (tasks five_tasks)))"
    by (simp add: five_tasks_def empty_database_def example_task_def example_project_def
        task_key_def)
  from project_counts_recomputed [OF pk, of "example_project 1" "[(1, 1), (3, 1), (4, 1)]"] pk z h
  show ?thesis by simp
qed

subsection \<open>Rows the project cascade leaves\<close>

lemma references_key_iff: "references_key v ks \<longleftrightarrow> (\<forall>k. v = Some k \<longrightarrow> k \<in> set ks)"
  by (cases v) (simp_all add: references_key_def)

lemma composite_key_eq_Some:
  "composite_key i p = Some k \<longleftrightarrow> (\<exists>a b. i = Some a \<and> p = Some b \<and> k = (a, b))"
  by (cases i; cases p) (auto simp: composite_key_def)

lemma in_task_keys:
  "(i, q) \<in> set (map task_key (tasks db)) \<longleftrightarrow>
     (\<exists>t\<in>set (tasks db). task_id t = i \<and> task_project_id t = q)"
  by (auto simp: task_key_def image_iff)

lemma set_project_histories:
  "set (concat (map (DbTask_task_history db) (DbProject_tasks db p))) =
     {h \<in> set (task_history db). th_project_id h = Some (prj_id p)
        \<and> (\<exists>t\<in>set (tasks db). task_id t = th_task_id h \<and> task_project_id t = prj_id p)}"
  by (auto simp: DbTask_task_history_def DbProject_tasks_def)

lemma Union_project_histories:
  "(\<Union>a\<in>set (DbProject_tasks db p). set (DbTask_task_history db a)) =
     {h \<in> set (task_history db). th_project_id h = Some (prj_id p)
        \<and> (\<exists>t\<in>set (tasks db). task_id t = th_task_id h \<and> task_project_id t = prj_id p)}"
  using set_project_histories [of db p] by simp

lemma organisations_cascade_project [simp]:
  "organisations (cascade_project db p) = organisations db"
  by (simp add: cascade_project_def cascade_tasks_def cascade_task_history_def)

lemma projects_cascade_project:
  "projects (cascade_project db p) = filter (\<lambda>q. prj_id q \<noteq> prj_id p) (projects db)"
  by (simp add: cascade_project_def)

lemma tasks_cascade_project:
  "tasks (cascade_project db p) = filter (\<lambda>t. task_project_id t \<noteq> prj_id p) (tasks db)"
proof -
  have "task_key t \<notin> set (map task_key (DbProject_tasks db p)) \<longleftrightarrow> task_project_id t \<noteq> prj_id p"
    if "t \<in> set (tasks db)" for t
    using that by (auto simp: DbProject_tasks_def task_key_def image_iff)
  then show ?thesis
    by (simp add: cascade_project_def cascade_tasks_def cong: filter_cong)
qed

lemma project_info_cascade_project:
  "project_info (cascade_project db p) =
     filter (\<lambda>i. pinfo_project_id i \<noteq> prj_id p) (project_info db)"
proof -
  have "pinfo_project_id i \<notin> set (map pinfo_project_id (DbProject_project_info db p))
        \<longleftrightarrow> pinfo_project_id i \<noteq> prj_id p"
    if "i \<in> set (project_info db)" for i
    using that by (auto simp: DbProject_project_info_def image_iff)
  then show ?thesis
    by (simp add: cascade_project_def cong: filter_cong)
qed

lemma project_chat_cascade_project:
  "set (project_chat (cascade_project db p)) \<subseteq>
     {c \<in> set (project_chat db). chat_project_id c \<noteq> prj_id p}"
  by (auto simp: cascade_project_def DbProject_project_chat_def image_iff)

lemma task_history_cascade_project:
  "task_history (cascade_project db p) =
     filter (\<lambda>h. th_id h \<notin> th_id ` {h \<in> set (task_history db). th_project_id h = Some (prj_id p)
        \<and> (\<exists>t\<in>set (tasks db). task_id t = th_task_id h \<and> task_project_id t = prj_id p)})
       (task_history db)"
  by (simp add: cascade_project_def cascade_tasks_def cascade_task_history_def
      Union_project_histories)

lemma task_invalidation_history_cascade_project:
  "task_invalidation_history (cascade_project db p) =
     filter (\<lambda>v. tih_id v \<notin> tih_id ` {v \<in> set (task_invalidation_history db).
        \<exists>h\<in>set (task_history db). th_project_id h = Some (prj_id p)
          \<and> (\<exists>t\<in>set (tasks db). task_id t = th_task_id h \<and> task_project_id t = prj_id p)
          \<and> tih_invalidation_history_id v = Some (th_id h)})
       (task_invalidation_history db)"
proof -
  have "set (concat (map (DbTaskHistory_invalidation_history db)
          (concat (map (DbTask_task_history db) (DbProject_tasks db p))))) =
        {v \<in> set (task_invalidation_history db).
        \<exists>h\<in>set (task_history db). th_project_id h = Some (prj_id p)
          \<and> (\<exists>t\<in>set (tasks db). task_id t = th_task_id h \<and> task_project_id t = prj_id p)
          \<and> tih_invalidation_history_id v = Some (th_id h)}"
    by (simp add: Union_project_histories)
      (auto simp: DbTaskHistory_invalidation_history_def)
  then have "set (map tih_id (concat (map (DbTaskHistory_invalidation_history db)
          (concat (map (DbTask_task_history db) (DbProject_tasks db p)))))) =
        tih_id ` {v \<in> set (task_invalidation_history db).
        \<exists>h\<in>set (task_history db). th_project_id h = Some (prj_id p)
          \<and> (\<exists>t\<in>set (tasks db). task_id t = th_task_id h \<and> task_project_id t = prj_id p)
          \<and> tih_invalidation_history_id v = Some (th_id h)}"
    by (simp only: set_map)
  then show ?thesis
    by (simp add: cascade_project_def cascade_tasks_def cascade_task_history_def
        del: set_concat set_map)
qed

lemma task_mapping_issues_cascade_project:
  "task_mapping_issues (cascade_project db p) =
     filter (\<lambda>i. tmi_id i \<notin> tmi_id ` {i \<in> set (task_mapping_issues db).
        \<exists>h\<in>set (task_history db). th_project_id h = Some (prj_id p)
          \<and> (\<exists>t\<in>set (tasks db). task_id t = th_task_id h \<and> task_project_id t = prj_id p)
          \<and> tmi_task_history_id i = th_id h})
       (task_mapping_issues db)"
proof -
  have "set (concat (map (DbTaskHistory_task_mapping_issues db)
          (concat (map (DbTask_task_history db) (DbProject_tasks db p))))) =
        {i \<in> set (task_mapping_issues db).
        \<exists>h\<in>set (task_history db). th_project_id h = Some (prj_id p)
          \<and> (\<exists>t\<in>set (tasks db). task_id t = th_task_id h \<and> task_project_id t = prj_id p)
          \<and> tmi_task_history_id i = th_id h}"
    by (simp add: Union_project_histories)
      (auto simp: DbTaskHistory_task_mapping_issues_def)
  then have "set (map tmi_id (concat (map (DbTaskHistory_task_mapping_issues db)
          (concat (map (DbTask_task_history db) (DbProject_tasks db p)))))) =
        tmi_id ` {i \<in> set (task_mapping_issues db).
        \<exists>h\<in>set (task_history db). th_project_id h = Some (prj_id p)
          \<and> (\<exists>t\<in>set (tasks db). task_id t = th_task_id h \<and> task_project_id t = prj_id p)
          \<and> tmi_task_history_id i = th_id h}"
    by (simp only: set_map)
  then show ?thesis
    by (simp add: cascade_project_def cascade_tasks_def cascade_task_history_def
        del: set_concat set_map)
qed

lemma features_cascade_project:
  "features (cascade_project db p) =
     map (\<lambda>f. if feat_project_id f = Some (prj_id p) then f\<lparr>feat_project_id := None\<rparr> else f)
       (features db)"
  by (simp add: cascade_project_def)

lemma task_history_fk_tasks_row:
  assumes "task_history_fk_tasks db" "h \<in> set (task_history db)" "th_project_id h = Some q"
  shows "\<exists>t\<in>set (tasks db). task_id t = th_task_id h \<and> task_project_id t = q"
proof -
  from assms(1,2) have "references_key (composite_key (Some (th_task_id h)) (th_project_id h))
      (map task_key (tasks db))"
    by (simp add: task_history_fk_tasks_def list_all_iff)
  then show ?thesis
    by (simp add: assms(3) composite_key_def references_key_def in_task_keys del: set_map)
qed

lemma task_invalidation_history_fk_tasks_row:
  assumes "task_invalidation_history_fk_tasks db" "v \<in> set (task_invalidation_history db)"
  shows "\<exists>t\<in>set (tasks db). task_id t = tih_task_id v \<and> task_project_id t = tih_project_id v"
proof -
  from assms have "references_key (composite_key (Some (tih_task_id v)) (Some (tih_project_id v)))
      (map task_key (tasks db))"
    by (simp add: task_invalidation_history_fk_tasks_def list_all_iff)
  then show ?thesis
    by (simp add: composite_key_def references_key_def in_task_keys del: set_map)
qed

lemma features_fk_tasks_row:
  assumes "features_fk_tasks db" "f \<in> set (features db)"
    "feat_task_id f = Some i" "feat_project_id f = Some q"
  shows "\<exists>t\<in>set (tasks db). task_id t = i \<and> task_project_id t = q"
proof -
  from assms(1,2) have "references_key (composite_key (feat_task_id f) (feat_project_id f))
      (map task_key (tasks db))"
    by (simp add: features_fk_tasks_def list_all_iff)
  then show ?thesis
    by (simp add: assms(3,4) composite_key_def references_key_def in_task_keys del: set_map)
qed

lemma remaining_task_history:
  assumes "task_history_fk_tasks db" "h \<in> set (task_history (cascade_project db p))"
  shows "h \<in> set (task_history db) \<and> th_project_id h \<noteq> Some (prj_id p)"
proof -
  from assms(2) have h: "h \<in> set (task_history db)"
    and n: "th_id h \<notin> th_id ` {h \<in> set (task_history db). th_project_id h = Some (prj_id p)
        \<and> (\<exists>t\<in>set (tasks db). task_id t = th_task_id h \<and> task_project_id t = prj_id p)}"
    by (simp_all add: task_history_cascade_project)
  have "th_project_id h \<noteq> Some (prj_id p)"
  proof
    assume q: "th_project_id h = Some (prj_id p)"
    from task_history_fk_tasks_row [OF assms(1) h q] h q n show False by blast
  qed
  with h show ?thesis by simp
qed

lemma remaining_task_invalidation_history:
  assumes fk: "task_history_fk_tasks db"
    and linked: "\<forall>v\<in>set (task_invalidation_history db). tih_project_id v = prj_id p \<longrightarrow>
      (\<exists>h\<in>set (task_history db). th_project_id h = Some (prj_id p)
         \<and> tih_invalidation_history_id v = Some (th_id h))"
    and v: "v \<in> set (task_invalidation_history (cascade_project db p))"
  shows "v \<in> set (task_invalidation_history db) \<and> tih_project_id v \<noteq> prj_id p"
proof -
  from v have m: "v \<in> set (task_invalidation_history db)"
    and n: "tih_id v \<notin> tih_id ` {v \<in> set (task_invalidation_history db).
        \<exists>h\<in>set (task_history db). th_project_id h = Some (prj_id p)
          \<and> (\<exists>t\<in>set (tasks db). task_id t = th_task_id h \<and> task_project_id t = prj_id p)
          \<and> tih_invalidation_history_id v = Some (th_id h)}"
    by (simp_all add: task_invalidation_history_cascade_project)
  have "tih_project_id v \<noteq> prj_id p"
  proof
    assume q: "tih_project_id v = prj_id p"
    with linked m obtain h where h: "h \<in> set (task_history db)"
      "th_project_id h = Some (prj_id p)" "tih_invalidation_history_id v = Some (th_id h)"
      by blast
    from task_history_fk_tasks_row [OF fk h(1,2)] h m n show False by blast
  qed
  with m show ?thesis by simp
qed

lemma unique_on_filter: "unique_on f xs \<Longrightarrow> unique_on f (filter P xs)"
  by (simp add: unique_on_def distinct_map_filter)

lemma primary_keys_cascade_project:
  assumes "primary_keys_ok db"
  shows "primary_keys_ok (cascade_project db p)"
proof -
  have c: "unique_on chat_id (project_chat (cascade_project db p))"
    using assms by (simp add: primary_keys_ok_def cascade_project_def unique_on_filter)
  have fe: "unique_on feat_id (features (cascade_project db p))"
    using assms by (simp add: primary_keys_ok_def features_cascade_project unique_on_def comp_def
        if_distrib cong: if_cong)
  from assms c fe show ?thesis
    by (simp add: primary_keys_ok_def projects_cascade_project tasks_cascade_project
        project_info_cascade_project task_history_cascade_project
        task_invalidation_history_cascade_project task_mapping_issues_cascade_project
        unique_on_filter pk_tasks_def distinct_map_filter)
qed

lemma in_project_ids:
  "q \<in> set (map prj_id (projects (cascade_project db p))) \<longleftrightarrow>
     q \<in> set (map prj_id (projects db)) \<and> q \<noteq> prj_id p"
  by (auto simp: projects_cascade_project)

lemma in_task_keys_cascade:
  "(i, q) \<in> set (map task_key (tasks (cascade_project db p))) \<longleftrightarrow>
     (i, q) \<in> set (map task_key (tasks db)) \<and> q \<noteq> prj_id p"
  by (auto simp: tasks_cascade_project task_key_def)

lemma foreign_keys_cascade_project:
  assumes fks: "foreign_keys_ok db"
    and linked: "\<forall>v\<in>set (task_invalidation_history db). tih_project_id v = prj_id p \<longrightarrow>
      (\<exists>h\<in>set (task_history db). th_project_id h = Some (prj_id p)
         \<and> tih_invalidation_history_id v = Some (th_id h))"
  shows "foreign_keys_ok (cascade_project db p)"
proof -
  let ?db = "cascade_project db p"
  have hfk: "task_history_fk_tasks db" using fks by (simp add: foreign_keys_ok_def)
  note rh = remaining_task_history [OF hfk]
  note rv = remaining_task_invalidation_history [OF hfk linked]
  have 1: "fk_projects_organisations ?db"
    using fks by (auto simp: foreign_keys_ok_def fk_projects_organisations_def list_all_iff
        projects_cascade_project)
  have 2: "fk_tasks_projects ?db"
    using fks unfolding foreign_keys_ok_def fk_tasks_projects_def list_all_iff in_project_ids
    by (auto simp: tasks_cascade_project)
  have 3: "fk_project_info_projects ?db"
    using fks unfolding foreign_keys_ok_def fk_project_info_projects_def list_all_iff in_project_ids
    by (auto simp: project_info_cascade_project)
  have 4: "fk_project_chat_projects ?db"
    using fks project_chat_cascade_project [of db p]
    unfolding foreign_keys_ok_def fk_project_chat_projects_def list_all_iff in_project_ids
    by blast
  have 5: "fk_task_history_projects ?db"
    using fks rh
    unfolding foreign_keys_ok_def fk_task_history_projects_def list_all_iff references_key_iff
      in_project_ids
    by blast
  have 6: "fk_task_invalidation_history_projects ?db"
    using fks rv
    unfolding foreign_keys_ok_def fk_task_invalidation_history_projects_def list_all_iff
      in_project_ids
    by blast
  have 7: "fk_features_projects ?db"
    using fks
    unfolding foreign_keys_ok_def fk_features_projects_def list_all_iff references_key_iff
      in_project_ids features_cascade_project
    by auto
  have 8: "task_history_fk_tasks ?db"
    unfolding task_history_fk_tasks_def list_all_iff references_key_iff
  proof (intro ballI allI impI)
    fix h k
    assume h: "h \<in> set (task_history ?db)"
      and k: "composite_key (Some (th_task_id h)) (th_project_id h) = Some k"
    from k obtain q where q: "th_project_id h = Some q" "k = (th_task_id h, q)"
      by (auto simp: composite_key_eq_Some)
    from rh [OF h] q have "h \<in> set (task_history db)" "q \<noteq> prj_id p" by auto
    moreover from hfk \<open>h \<in> set (task_history db)\<close> k
    have "k \<in> set (map task_key (tasks db))"
      unfolding task_history_fk_tasks_def list_all_iff references_key_iff by blast
    ultimately show "k \<in> set (map task_key (tasks ?db))"
      unfolding q(2) in_task_keys_cascade by simp
  qed
  have 9: "task_invalidation_history_fk_tasks ?db"
    unfolding task_invalidation_history_fk_tasks_def list_all_iff references_key_iff
  proof (intro ballI allI impI)
    fix v k
    assume v: "v \<in> set (task_invalidation_history ?db)"
      and k: "composite_key (Some (tih_task_id v)) (Some (tih_project_id v)) = Some k"
    from k have kk: "k = (tih_task_id v, tih_project_id v)"
      by (auto simp: composite_key_eq_Some)
    from rv [OF v] have m: "v \<in> set (task_invalidation_history db)" "tih_project_id v \<noteq> prj_id p"
      by auto
    moreover from fks m(1) k have "k \<in> set (map task_key (tasks db))"
      unfolding foreign_keys_ok_def task_invalidation_history_fk_tasks_def list_all_iff
        references_key_iff by blast
    ultimately show "k \<in> set (map task_key (tasks ?db))"
      unfolding kk in_task_keys_cascade by simp
  qed
  have 10: "features_fk_tasks ?db"
    unfolding features_fk_tasks_def list_all_iff references_key_iff
  proof (intro ballI allI impI)
    fix f k
    assume f: "f \<in> set (features ?db)"
      and k: "composite_key (feat_task_id f) (feat_project_id f) = Some k"
    from k obtain i q where q: "feat_task_id f = Some i" "feat_project_id f = Some q" "k = (i, q)"
      by (auto simp: composite_key_eq_Some)
    from f q(1,2) have "f \<in> set (features db)" "q \<noteq> prj_id p"
      by (auto simp: features_cascade_project split: if_splits)
    moreover from fks \<open>f \<in> set (features db)\<close> k
    have "k \<in> set (map task_key (tasks db))"
      unfolding foreign_keys_ok_def features_fk_tasks_def list_all_iff references_key_iff
      by blast
    ultimately show "k \<in> set (map task_key (tasks ?db))"
      unfolding q(3) in_task_keys_cascade by simp
  qed
  have 11: "fk_invalidation_history ?db"
    unfolding fk_invalidation_history_def list_all_iff references_key_iff
  proof (intro ballI allI impI)
    fix v k
    assume v: "v \<in> set (task_invalidation_history ?db)"
      and k: "tih_invalidation_history_id v = Some k"
    from v have m: "v \<in> set (task_invalidation_history db)"
      and n: "tih_id v \<notin> tih_id ` {v \<in> set (task_invalidation_history db).
        \<exists>h\<in>set (task_history db). th_project_id h = Some (prj_id p)
          \<and> (\<exists>t\<in>set (tasks db). task_id t = th_task_id h \<and> task_project_id t = prj_id p)
          \<and> tih_invalidation_history_id v = Some (th_id h)}"
      by (simp_all add: task_invalidation_history_cascade_project)
    from fks m k obtain h where h: "h \<in> set (task_history db)" "th_id h = k"
      unfolding foreign_keys_ok_def fk_invalidation_history_def list_all_iff references_key_iff
      by auto
    have "k \<notin> th_id ` {h \<in> set (task_history db). th_project_id h = Some (prj_id p)
        \<and> (\<exists>t\<in>set (tasks db). task_id t = th_task_id h \<and> task_project_id t = prj_id p)}"
      using m n k by blast
    with h show "k \<in> set (map th_id (task_history ?db))"
      by (auto simp: task_history_cascade_project)
  qed
  have 12: "fk_task_mapping_issues_task_history ?db"
    unfolding fk_task_mapping_issues_task_history_def list_all_iff
  proof (intro ballI)
    fix i
    assume i: "i \<in> set (task_mapping_issues ?db)"
    from i have m: "i \<in> set (task_mapping_issues db)"
      and n: "tmi_id i \<notin> tmi_id ` {i \<in> set (task_mapping_issues db).
        \<exists>h\<in>set (task_history db). th_project_id h = Some (prj_id p)
          \<and> (\<exists>t\<in>set (tasks db). task_id t = th_task_id h \<and> task_project_id t = prj_id p)
          \<and> tmi_task_history_id i = th_id h}"
      by (simp_all add: task_mapping_issues_cascade_project)
    from fks m obtain h where h: "h \<in> set (task_history db)" "th_id h = tmi_task_history_id i"
      unfolding foreign_keys_ok_def fk_task_mapping_issues_task_history_def list_all_iff
      by auto
    define k where "k = tmi_task_history_id i"
    have "k \<notin> th_id ` {h \<in> set (task_history db). th_project_id h = Some (prj_id p)
        \<and> (\<exists>t\<in>set (tasks db). task_id t = th_task_id h \<and> task_project_id t = prj_id p)}"
      using m n unfolding k_def by blast
    with h have "k \<in> set (map th_id (task_history ?db))"
      unfolding k_def [symmetric] by (auto simp: task_history_cascade_project)
    then show "tmi_task_history_id i \<in> set (map th_id (task_history ?db))"
      by (simp only: k_def)
  qed
  from 1 2 3 4 5 6 7 8 9 10 11 12 show ?thesis
    by (simp add: foreign_keys_ok_def)
qed

subsection \<open>The history of a task\<close>

text \<open>
  Claim C8. Whenever the history of a task is loaded through \<^verbatim>\<open>DbTask.task_history\<close>,
  it holds exactly the history rows of the task (the rows that carry its id and its
  project's id), as many as the table has, and their action dates never increase along
  the list: the most recent action comes first.
\<close>

theorem task_history_descending:
  "sorted_wrt (\<lambda>a b. b \<le> a) (map th_action_date (DbTask_task_history db t))
   \<and> set (DbTask_task_history db t) =
       {h \<in> set (task_history db). th_task_id h = task_id t \<and> th_project_id h = Some (task_project_id t)}
   \<and> length (DbTask_task_history db t) =
       length (filter (\<lambda>h. th_task_id h = task_id t \<and> th_project_id h = Some (task_project_id t))
                 (task_history db))"
proof -
  let ?rows = "filter (\<lambda>h. th_task_id h = task_id t \<and> th_project_id h = Some (task_project_id t))
                 (task_history db)"
  have "sorted (map th_action_date (sort_key th_action_date ?rows))"
    by (rule sorted_sort_key)
  then have "sorted_wrt (\<lambda>a b. b \<le> a) (rev (map th_action_date (sort_key th_action_date ?rows)))"
    by (simp add: sorted_wrt_rev)
  then have "sorted_wrt (\<lambda>a b. b \<le> a) (map th_action_date (DbTask_task_history db t))"
    by (simp add: DbTask_task_history_def rev_map)
  moreover have "set (DbTask_task_history db t) =
       {h \<in> set (task_history db). th_task_id h = task_id t \<and> th_project_id h = Some (task_project_id t)}"
    by (auto simp: DbTask_task_history_def)
  moreover have "length (DbTask_task_history db t) = length ?rows"
    by (simp add: DbTask_task_history_def)
  ultimately show ?thesis by blast
qed

subsection \<open>The composite key of tasks\<close>

text \<open>
  Claim C5, as amended. With the primary key of \<^verbatim>\<open>tasks\<close> and the composite foreign
  keys \<^verbatim>\<open>fk_tasks\<close> in force, two task rows with the same id and the same project id
  are one row, and an id alone does not identify a task: a state that satisfies every
  constraint holds two tasks with one id, in two projects. Every row of
  \<^verbatim>\<open>task_invalidation_history\<close>, and every row of \<^verbatim>\<open>task_history\<close> and \<^verbatim>\<open>features\<close>
  in which both columns of the key are set, names a task that exists under that very
  project, so such a row cannot name a task id that exists only under another
  project. The rows of \<^verbatim>\<open>task_history\<close> and \<^verbatim>\<open>features\<close> with a \<^verbatim>\<open>NULL\<close> in the key
  are not covered: their columns are nullable, and the key is not checked for them.
\<close>

theorem tasks_composite_key:
  assumes "pk_tasks db" and "task_history_fk_tasks db"
    and "task_invalidation_history_fk_tasks db" and "features_fk_tasks db"
  shows "(\<forall>t\<in>set (tasks db). \<forall>u\<in>set (tasks db).
            task_id t = task_id u \<and> task_project_id t = task_project_id u \<longrightarrow> t = u)
       \<and> (\<forall>h\<in>set (task_history db). \<forall>q. th_project_id h = Some q \<longrightarrow>
            (\<exists>t\<in>set (tasks db). task_id t = th_task_id h \<and> task_project_id t = q))
       \<and> (\<forall>v\<in>set (task_invalidation_history db).
            \<exists>t\<in>set (tasks db). task_id t = tih_task_id v \<and> task_project_id t = tih_project_id v)
       \<and> (\<forall>f\<in>set (features db). \<forall>i q. feat_task_id f = Some i \<and> feat_project_id f = Some q \<longrightarrow>
            (\<exists>t\<in>set (tasks db). task_id t = i \<and> task_project_id t = q))
       \<and> (\<exists>db'. schema_ok db' \<and>
            (\<exists>t\<in>set (tasks db'). \<exists>u\<in>set (tasks db'). task_id t = task_id u \<and> t \<noteq> u))"
proof (intro conjI)
  have inj: "inj_on task_key (set (tasks db))"
    using assms(1) by (simp add: pk_tasks_def distinct_map)
  show "\<forall>t\<in>set (tasks db). \<forall>u\<in>set (tasks db).
          task_id t = task_id u \<and> task_project_id t = task_project_id u \<longrightarrow> t = u"
    using inj by (auto simp: inj_on_def task_key_def)
  show "\<forall>h\<in>set (task_history db). \<forall>q. th_project_id h = Some q \<longrightarrow>
          (\<exists>t\<in>set (tasks db). task_id t = th_task_id h \<and> task_project_id t = q)"
    using task_history_fk_tasks_row [OF assms(2)] by blast
  show "\<forall>v\<in>set (task_invalidation_history db).
          \<exists>t\<in>set (tasks db). task_id t = tih_task_id v \<and> task_project_id t = tih_project_id v"
    using task_invalidation_history_fk_tasks_row [OF assms(3)] by blast
  show "\<forall>f\<in>set (features db). \<forall>i q. feat_task_id f = Some i \<and> feat_project_id f = Some q \<longrightarrow>
          (\<exists>t\<in>set (tasks db). task_id t = i \<and> task_project_id t = q)"
    using features_fk_tasks_row [OF assms(4)] by blast
  have "schema_ok five_tasks"
    by code_simp
  moreover have "\<exists>t\<in>set (tasks five_tasks). \<exists>u\<in>set (tasks five_tasks). task_id t = task_id u \<and> t \<noteq> u"
    by (simp add: five_tasks_def empty_database_def example_task_def)
  ultimately show "\<exists>db'. schema_ok db' \<and>
            (\<exists>t\<in>set (tasks db'). \<exists>u\<in>set (tasks db'). task_id t = task_id u \<and> t \<noteq> u)"
    by blast
qed

lemma schema_ok_example_store: "schema_ok example_store"
  by code_simp

text \<open>
  In the example state the history row 5 names task 1 of project 2, which exists, next
  to a task 1 of project 1.
\<close>

theorem tasks_composite_key_witness:
  "pk_tasks example_store \<and> task_history_fk_tasks example_store
   \<and> task_invalidation_history_fk_tasks example_store \<and> features_fk_tasks example_store
   \<and> example_history 5 2 1 15 \<in> set (task_history example_store)
   \<and> (\<exists>t\<in>set (tasks example_store). task_id t = 1 \<and> task_project_id t = 2)"
proof -
  have ok: "pk_tasks example_store" "task_history_fk_tasks example_store"
    "task_invalidation_history_fk_tasks example_store" "features_fk_tasks example_store"
    using schema_ok_example_store
    by (simp_all add: schema_ok_def primary_keys_ok_def foreign_keys_ok_def)
  have h: "example_history 5 2 1 15 \<in> set (task_history example_store)"
    by (simp add: example_store_def)
  have p: "th_project_id (example_history 5 2 1 15) = Some 2"
    "th_task_id (example_history 5 2 1 15) = 1"
    by (simp_all add: example_history_def)
  from tasks_composite_key [OF ok] h p
  have "\<exists>t\<in>set (tasks example_store). task_id t = 1 \<and> task_project_id t = 2"
    by fastforce
  with ok h show ?thesis by simp
qed

text \<open>
  Claim C5 as it is stated fails for the child rows with a \<^verbatim>\<open>NULL\<close> column.
  \<^verbatim>\<open>task_history.project_id\<close> and both columns of \<^verbatim>\<open>features\<close> are nullable, and the
  composite foreign key is not checked for a row with a \<^verbatim>\<open>NULL\<close> in it. The state
  below satisfies every declared constraint; its history row and its feature row name
  task 2 and no project, and the only task 2 is the one of project 1.
\<close>

theorem composite_key_counterexample:
  "schema_ok null_project_store
   \<and> map task_key (tasks null_project_store) = [(2, 1)]
   \<and> map (\<lambda>h. (th_task_id h, th_project_id h)) (task_history null_project_store)
       = [(2, None)]
   \<and> map (\<lambda>f. (feat_task_id f, feat_project_id f)) (features null_project_store)
       = [(Some 2, None)]"
proof -
  have "schema_ok null_project_store"
    by code_simp
  moreover have "map task_key (tasks null_project_store) = [(2, 1)]"
    by code_simp
  moreover have "map (\<lambda>h. (th_task_id h, th_project_id h)) (task_history null_project_store)
       = [(2, None)]"
    by code_simp
  moreover have "map (\<lambda>f. (feat_task_id f, feat_project_id f)) (features null_project_store)
       = [(Some 2, None)]"
    by code_simp
  ultimately show ?thesis by simp
qed

subsection \<open>Rows the task cascade leaves\<close>

lemma unique_on_eq:
  assumes "unique_on f xs" "a \<in> set xs" "b \<in> set xs" "f a = f b"
  shows "a = b"
  using assms by (auto simp: unique_on_def distinct_map inj_on_def)

lemma other_tables_cascade_tasks:
  "organisations (cascade_tasks db ts) = organisations db"
  "projects (cascade_tasks db ts) = projects db"
  "project_info (cascade_tasks db ts) = project_info db"
  "project_chat (cascade_tasks db ts) = project_chat db"
  "features (cascade_tasks db ts) = features db"
  by (simp_all add: cascade_tasks_def cascade_task_history_def)

lemma tasks_cascade_task:
  "tasks (cascade_tasks db [t]) = filter (\<lambda>u. task_key u \<noteq> task_key t) (tasks db)"
  by (simp add: cascade_tasks_def)

lemma set_task_histories:
  "set (concat (map (DbTask_task_history db) [t])) =
     {h \<in> set (task_history db).
        th_task_id h = task_id t \<and> th_project_id h = Some (task_project_id t)}"
  by (auto simp: DbTask_task_history_def)

lemma task_history_cascade_task:
  "task_history (cascade_tasks db [t]) =
     filter (\<lambda>h. th_id h \<notin> th_id ` {h \<in> set (task_history db).
        th_task_id h = task_id t \<and> th_project_id h = Some (task_project_id t)})
       (task_history db)"
proof -
  have "set (map th_id (concat (map (DbTask_task_history db) [t]))) =
      th_id ` {h \<in> set (task_history db).
        th_task_id h = task_id t \<and> th_project_id h = Some (task_project_id t)}"
    by (simp only: set_map set_task_histories)
  then show ?thesis
    by (simp add: cascade_tasks_def cascade_task_history_def del: set_concat set_map
        concat.simps list.map)
qed

lemma task_invalidation_history_cascade_task:
  "task_invalidation_history (cascade_tasks db [t]) =
     filter (\<lambda>v. tih_id v \<notin> tih_id ` {v \<in> set (task_invalidation_history db).
        \<exists>h\<in>set (task_history db).
          th_task_id h = task_id t \<and> th_project_id h = Some (task_project_id t)
          \<and> tih_invalidation_history_id v = Some (th_id h)})
       (task_invalidation_history db)"
proof -
  have "set (concat (map (DbTaskHistory_invalidation_history db)
          (concat (map (DbTask_task_history db) [t])))) =
        {v \<in> set (task_invalidation_history db).
        \<exists>h\<in>set (task_history db).
          th_task_id h = task_id t \<and> th_project_id h = Some (task_project_id t)
          \<and> tih_invalidation_history_id v = Some (th_id h)}"
    by (auto simp: DbTaskHistory_invalidation_history_def DbTask_task_history_def)
  then have "set (map tih_id (concat (map (DbTaskHistory_invalidation_history db)
          (concat (map (DbTask_task_history db) [t]))))) =
        tih_id ` {v \<in> set (task_invalidation_history db).
        \<exists>h\<in>set (task_history db).
          th_task_id h = task_id t \<and> th_project_id h = Some (task_project_id t)
          \<and> tih_invalidation_history_id v = Some (th_id h)}"
    by (simp only: set_map)
  then show ?thesis
    by (simp add: cascade_tasks_def cascade_task_history_def del: set_concat set_map
        concat.simps list.map)
qed

lemma task_mapping_issues_cascade_task:
  "task_mapping_issues (cascade_tasks db [t]) =
     filter (\<lambda>i. tmi_id i \<notin> tmi_id ` {i \<in> set (task_mapping_issues db).
        \<exists>h\<in>set (task_history db).
          th_task_id h = task_id t \<and> th_project_id h = Some (task_project_id t)
          \<and> tmi_task_history_id i = th_id h})
       (task_mapping_issues db)"
proof -
  have "set (concat (map (DbTaskHistory_task_mapping_issues db)
          (concat (map (DbTask_task_history db) [t])))) =
        {i \<in> set (task_mapping_issues db).
        \<exists>h\<in>set (task_history db).
          th_task_id h = task_id t \<and> th_project_id h = Some (task_project_id t)
          \<and> tmi_task_history_id i = th_id h}"
    by (auto simp: DbTaskHistory_task_mapping_issues_def DbTask_task_history_def)
  then have "set (map tmi_id (concat (map (DbTaskHistory_task_mapping_issues db)
          (concat (map (DbTask_task_history db) [t]))))) =
        tmi_id ` {i \<in> set (task_mapping_issues db).
        \<exists>h\<in>set (task_history db).
          th_task_id h = task_id t \<and> th_project_id h = Some (task_project_id t)
          \<and> tmi_task_history_id i = th_id h}"
    by (simp only: set_map)
  then show ?thesis
    by (simp add: cascade_tasks_def cascade_task_history_def del: set_concat set_map
        concat.simps list.map)
qed

lemma primary_keys_cascade_task:
  assumes "primary_keys_ok db"
  shows "primary_keys_ok (cascade_tasks db [t])"
  using assms
  by (simp add: primary_keys_ok_def other_tables_cascade_tasks tasks_cascade_task
      task_history_cascade_task task_invalidation_history_cascade_task
      task_mapping_issues_cascade_task unique_on_filter pk_tasks_def distinct_map_filter)

lemma in_task_keys_cascade_task:
  "k \<in> set (map task_key (tasks (cascade_tasks db [t]))) \<longleftrightarrow>
     k \<in> set (map task_key (tasks db)) \<and> k \<noteq> task_key t"
  by (auto simp: tasks_cascade_task)

lemma remaining_task_history_task:
  assumes "h \<in> set (task_history (cascade_tasks db [t]))"
  shows "h \<in> set (task_history db)
    \<and> \<not> (th_task_id h = task_id t \<and> th_project_id h = Some (task_project_id t))"
  using assms by (auto simp: task_history_cascade_task)

lemma remaining_task_invalidation_history_task:
  assumes linked: "\<forall>v\<in>set (task_invalidation_history db).
      tih_task_id v = task_id t \<and> tih_project_id v = task_project_id t \<longrightarrow>
      (\<exists>h\<in>set (task_history db).
         th_task_id h = task_id t \<and> th_project_id h = Some (task_project_id t)
         \<and> tih_invalidation_history_id v = Some (th_id h))"
    and v: "v \<in> set (task_invalidation_history (cascade_tasks db [t]))"
  shows "v \<in> set (task_invalidation_history db)
    \<and> \<not> (tih_task_id v = task_id t \<and> tih_project_id v = task_project_id t)"
proof -
  from v have m: "v \<in> set (task_invalidation_history db)"
    and n: "tih_id v \<notin> tih_id ` {v \<in> set (task_invalidation_history db).
        \<exists>h\<in>set (task_history db).
          th_task_id h = task_id t \<and> th_project_id h = Some (task_project_id t)
          \<and> tih_invalidation_history_id v = Some (th_id h)}"
    by (simp_all add: task_invalidation_history_cascade_task)
  have "\<not> (tih_task_id v = task_id t \<and> tih_project_id v = task_project_id t)"
  proof
    assume q: "tih_task_id v = task_id t \<and> tih_project_id v = task_project_id t"
    with linked m have "\<exists>h\<in>set (task_history db).
         th_task_id h = task_id t \<and> th_project_id h = Some (task_project_id t)
         \<and> tih_invalidation_history_id v = Some (th_id h)"
      by blast
    with m n show False by blast
  qed
  with m show ?thesis by simp
qed

lemma foreign_keys_cascade_task:
  assumes fks: "foreign_keys_ok db"
    and linked: "\<forall>v\<in>set (task_invalidation_history db).
      tih_task_id v = task_id t \<and> tih_project_id v = task_project_id t \<longrightarrow>
      (\<exists>h\<in>set (task_history db).
         th_task_id h = task_id t \<and> th_project_id h = Some (task_project_id t)
         \<and> tih_invalidation_history_id v = Some (th_id h))"
    and nofeat: "\<forall>f\<in>set (features db).
      \<not> (feat_task_id f = Some (task_id t) \<and> feat_project_id f = Some (task_project_id t))"
  shows "foreign_keys_ok (cascade_tasks db [t])"
proof -
  let ?db = "cascade_tasks db [t]"
  note rh = remaining_task_history_task [of _ db t]
  note rv = remaining_task_invalidation_history_task [OF linked]
  have 1: "fk_projects_organisations ?db"
    using fks by (simp add: foreign_keys_ok_def fk_projects_organisations_def
        other_tables_cascade_tasks)
  have 2: "fk_tasks_projects ?db"
    using fks by (auto simp: foreign_keys_ok_def fk_tasks_projects_def list_all_iff
        other_tables_cascade_tasks tasks_cascade_task)
  have 3: "fk_project_info_projects ?db"
    using fks by (simp add: foreign_keys_ok_def fk_project_info_projects_def
        other_tables_cascade_tasks)
  have 4: "fk_project_chat_projects ?db"
    using fks by (simp add: foreign_keys_ok_def fk_project_chat_projects_def
        other_tables_cascade_tasks)
  have 5: "fk_task_history_projects ?db"
    using fks rh
    unfolding foreign_keys_ok_def fk_task_history_projects_def list_all_iff
      other_tables_cascade_tasks
    by blast
  have 6: "fk_task_invalidation_history_projects ?db"
    using fks rv
    unfolding foreign_keys_ok_def fk_task_invalidation_history_projects_def list_all_iff
      other_tables_cascade_tasks
    by blast
  have 7: "fk_features_projects ?db"
    using fks by (simp add: foreign_keys_ok_def fk_features_projects_def
        other_tables_cascade_tasks)
  have 8: "task_history_fk_tasks ?db"
    unfolding task_history_fk_tasks_def list_all_iff references_key_iff
  proof (intro ballI allI impI)
    fix h k
    assume h: "h \<in> set (task_history ?db)"
      and k: "composite_key (Some (th_task_id h)) (th_project_id h) = Some k"
    from k obtain q where q: "th_project_id h = Some q" "k = (th_task_id h, q)"
      by (auto simp: composite_key_eq_Some)
    from rh [OF h] q have "h \<in> set (task_history db)" "k \<noteq> task_key t"
      by (auto simp: task_key_def)
    moreover from fks \<open>h \<in> set (task_history db)\<close> k
    have "k \<in> set (map task_key (tasks db))"
      unfolding foreign_keys_ok_def task_history_fk_tasks_def list_all_iff references_key_iff
      by blast
    ultimately show "k \<in> set (map task_key (tasks ?db))"
      unfolding in_task_keys_cascade_task by simp
  qed
  have 9: "task_invalidation_history_fk_tasks ?db"
    unfolding task_invalidation_history_fk_tasks_def list_all_iff references_key_iff
  proof (intro ballI allI impI)
    fix v k
    assume v: "v \<in> set (task_invalidation_history ?db)"
      and k: "composite_key (Some (tih_task_id v)) (Some (tih_project_id v)) = Some k"
    from k have kk: "k = (tih_task_id v, tih_project_id v)"
      by (auto simp: composite_key_eq_Some)
    from rv [OF v] kk have m: "v \<in> set (task_invalidation_history db)" "k \<noteq> task_key t"
      by (auto simp: task_key_def)
    moreover from fks m(1) k have "k \<in> set (map task_key (tasks db))"
      unfolding foreign_keys_ok_def task_invalidation_history_fk_tasks_def list_all_iff
        references_key_iff by blast
    ultimately show "k \<in> set (map task_key (tasks ?db))"
      unfolding in_task_keys_cascade_task by simp
  qed
  have 10: "features_fk_tasks ?db"
    unfolding features_fk_tasks_def list_all_iff references_key_iff
  proof (intro ballI allI impI)
    fix f k
    assume f: "f \<in> set (features ?db)"
      and k: "composite_key (feat_task_id f) (feat_project_id f) = Some k"
    from k obtain i q where q: "feat_task_id f = Some i" "feat_project_id f = Some q" "k = (i, q)"
      by (auto simp: composite_key_eq_Some)
    from f have m: "f \<in> set (features db)"
      by (simp add: other_tables_cascade_tasks)
    with nofeat q have "k \<noteq> task_key t"
      by (auto simp: task_key_def)
    moreover from fks m k have "k \<in> set (map task_key (tasks db))"
      unfolding foreign_keys_ok_def features_fk_tasks_def list_all_iff references_key_iff
      by blast
    ultimately show "k \<in> set (map task_key (tasks ?db))"
      unfolding in_task_keys_cascade_task by simp
  qed
  have 11: "fk_invalidation_history ?db"
    unfolding fk_invalidation_history_def list_all_iff references_key_iff
  proof (intro ballI allI impI)
    fix v k
    assume v: "v \<in> set (task_invalidation_history ?db)"
      and k: "tih_invalidation_history_id v = Some k"
    from v have m: "v \<in> set (task_invalidation_history db)"
      and n: "tih_id v \<notin> tih_id ` {v \<in> set (task_invalidation_history db).
        \<exists>h\<in>set (task_history db).
          th_task_id h = task_id t \<and> th_project_id h = Some (task_project_id t)
          \<and> tih_invalidation_history_id v = Some (th_id h)}"
      by (simp_all add: task_invalidation_history_cascade_task)
    from fks m k obtain h where h: "h \<in> set (task_history db)" "th_id h = k"
      unfolding foreign_keys_ok_def fk_invalidation_history_def list_all_iff references_key_iff
      by auto
    have "k \<notin> th_id ` {h \<in> set (task_history db).
        th_task_id h = task_id t \<and> th_project_id h = Some (task_project_id t)}"
      using m n k by blast
    with h show "k \<in> set (map th_id (task_history ?db))"
      by (auto simp: task_history_cascade_task)
  qed
  have 12: "fk_task_mapping_issues_task_history ?db"
    unfolding fk_task_mapping_issues_task_history_def list_all_iff
  proof (intro ballI)
    fix i
    assume i: "i \<in> set (task_mapping_issues ?db)"
    from i have m: "i \<in> set (task_mapping_issues db)"
      and n: "tmi_id i \<notin> tmi_id ` {i \<in> set (task_mapping_issues db).
        \<exists>h\<in>set (task_history db).
          th_task_id h = task_id t \<and> th_project_id h = Some (task_project_id t)
          \<and> tmi_task_history_id i = th_id h}"
      by (simp_all add: task_mapping_issues_cascade_task)
    from fks m obtain h where h: "h \<in> set (task_history db)" "th_id h = tmi_task_history_id i"
      unfolding foreign_keys_ok_def fk_task_mapping_issues_task_history_def list_all_iff
      by auto
    define k where "k = tmi_task_history_id i"
    have "k \<notin> th_id ` {h \<in> set (task_history db).
        th_task_id h = task_id t \<and> th_project_id h = Some (task_project_id t)}"
      using m n unfolding k_def by blast
    with h have "k \<in> set (map th_id (task_history ?db))"
      unfolding k_def [symmetric] by (auto simp: task_history_cascade_task)
    then show "tmi_task_history_id i \<in> set (map th_id (task_history ?db))"
      by (simp only: k_def)
  qed
  from 1 2 3 4 5 6 7 8 9 10 11 12 show ?thesis
    by (simp add: foreign_keys_ok_def)
qed

subsection \<open>Deleting a project or a task\<close>

lemma task_history_cascade_tasks_single:
  "DbTask_task_history (cascade_tasks db [t]) t = []"
proof -
  have "filter (\<lambda>h. th_task_id h = task_id t \<and> th_project_id h = Some (task_project_id t))
          (task_history (cascade_tasks db [t])) = []"
    by (auto simp: cascade_tasks_def cascade_task_history_def DbTask_task_history_def
        filter_empty_conv)
  then show ?thesis
    by (simp add: DbTask_task_history_def)
qed

lemma null_project_history_cascade_project:
  assumes "unique_on th_id (task_history db)"
  shows "filter (\<lambda>h. th_project_id h = None) (task_history (cascade_project db p))
       = filter (\<lambda>h. th_project_id h = None) (task_history db)"
proof -
  have "th_id h \<notin> th_id ` {h \<in> set (task_history db). th_project_id h = Some (prj_id p)
        \<and> (\<exists>t\<in>set (tasks db). task_id t = th_task_id h \<and> task_project_id t = prj_id p)}"
    if h: "h \<in> set (task_history db)" and n: "th_project_id h = None" for h
  proof
    assume "th_id h \<in> th_id ` {h \<in> set (task_history db). th_project_id h = Some (prj_id p)
        \<and> (\<exists>t\<in>set (tasks db). task_id t = th_task_id h \<and> task_project_id t = prj_id p)}"
    then obtain h' where h': "h' \<in> set (task_history db)" "th_project_id h' = Some (prj_id p)"
      "th_id h = th_id h'"
      by blast
    from unique_on_eq [OF assms h h'(1) h'(3)] h'(2) n show False by simp
  qed
  then show ?thesis
    unfolding task_history_cascade_project filter_filter
    by (intro filter_cong refl) blast
qed

lemma unlinked_record_stays_project:
  assumes u: "unique_on tih_id (task_invalidation_history db)"
    and v: "v \<in> set (task_invalidation_history db)"
    and n: "\<not> (\<exists>h\<in>set (task_history db). th_project_id h = Some (prj_id p)
         \<and> tih_invalidation_history_id v = Some (th_id h))"
  shows "v \<in> set (task_invalidation_history (cascade_project db p))"
proof -
  have "tih_id v \<notin> tih_id ` {v \<in> set (task_invalidation_history db).
        \<exists>h\<in>set (task_history db). th_project_id h = Some (prj_id p)
          \<and> (\<exists>t\<in>set (tasks db). task_id t = th_task_id h \<and> task_project_id t = prj_id p)
          \<and> tih_invalidation_history_id v = Some (th_id h)}"
  proof
    assume "tih_id v \<in> tih_id ` {v \<in> set (task_invalidation_history db).
        \<exists>h\<in>set (task_history db). th_project_id h = Some (prj_id p)
          \<and> (\<exists>t\<in>set (tasks db). task_id t = th_task_id h \<and> task_project_id t = prj_id p)
          \<and> tih_invalidation_history_id v = Some (th_id h)}"
    then obtain v' h where v': "v' \<in> set (task_invalidation_history db)" "tih_id v = tih_id v'"
      and h: "h \<in> set (task_history db)" "th_project_id h = Some (prj_id p)"
        "tih_invalidation_history_id v' = Some (th_id h)"
      by blast
    from unique_on_eq [OF u v v'(1) v'(2)] have "v = v'" .
    with h n show False by blast
  qed
  with v show ?thesis
    by (simp add: task_invalidation_history_cascade_project)
qed

lemma project_delete_refused:
  assumes ok: "schema_ok db"
    and v: "v \<in> set (task_invalidation_history db)" "tih_project_id v = prj_id p"
    and n: "\<not> (\<exists>h\<in>set (task_history db). th_project_id h = Some (prj_id p)
         \<and> tih_invalidation_history_id v = Some (th_id h))"
  shows "session_delete_project db p = Inl IntegrityError"
proof -
  from ok have u: "unique_on tih_id (task_invalidation_history db)"
    by (simp add: schema_ok_def primary_keys_ok_def)
  from unlinked_record_stays_project [OF u v(1) n]
  have s: "v \<in> set (task_invalidation_history (cascade_project db p))" .
  have "prj_id p \<notin> set (map prj_id (projects (cascade_project db p)))"
    unfolding in_project_ids by simp
  with s v(2) have "\<not> fk_task_invalidation_history_projects (cascade_project db p)"
    unfolding fk_task_invalidation_history_projects_def list_all_iff by metis
  then have "\<not> schema_ok (cascade_project db p)"
    by (simp add: schema_ok_def foreign_keys_ok_def)
  then show ?thesis
    by (simp add: session_delete_project_def commit_def)
qed

lemma unlinked_record_stays_task:
  assumes u: "unique_on tih_id (task_invalidation_history db)"
    and v: "v \<in> set (task_invalidation_history db)"
    and n: "\<not> (\<exists>h\<in>set (task_history db).
         th_task_id h = task_id t \<and> th_project_id h = Some (task_project_id t)
         \<and> tih_invalidation_history_id v = Some (th_id h))"
  shows "v \<in> set (task_invalidation_history (cascade_tasks db [t]))"
proof -
  have "tih_id v \<notin> tih_id ` {v \<in> set (task_invalidation_history db).
        \<exists>h\<in>set (task_history db).
          th_task_id h = task_id t \<and> th_project_id h = Some (task_project_id t)
          \<and> tih_invalidation_history_id v = Some (th_id h)}"
  proof
    assume "tih_id v \<in> tih_id ` {v \<in> set (task_invalidation_history db).
        \<exists>h\<in>set (task_history db).
          th_task_id h = task_id t \<and> th_project_id h = Some (task_project_id t)
          \<and> tih_invalidation_history_id v = Some (th_id h)}"
    then obtain v' h where v': "v' \<in> set (task_invalidation_history db)" "tih_id v = tih_id v'"
      and h: "h \<in> set (task_history db)"
        "th_task_id h = task_id t \<and> th_project_id h = Some (task_project_id t)"
        "tih_invalidation_history_id v' = Some (th_id h)"
      by blast
    from unique_on_eq [OF u v v'(1) v'(2)] have "v = v'" .
    with h n show False by blast
  qed
  with v show ?thesis
    by (simp add: task_invalidation_history_cascade_task)
qed

lemma task_delete_refused_record:
  assumes ok: "schema_ok db"
    and v: "v \<in> set (task_invalidation_history db)"
      "tih_task_id v = task_id t \<and> tih_project_id v = task_project_id t"
    and n: "\<not> (\<exists>h\<in>set (task_history db).
         th_task_id h = task_id t \<and> th_project_id h = Some (task_project_id t)
         \<and> tih_invalidation_history_id v = Some (th_id h))"
  shows "session_delete_task db t = Inl IntegrityError"
proof -
  from ok have u: "unique_on tih_id (task_invalidation_history db)"
    by (simp add: schema_ok_def primary_keys_ok_def)
  from unlinked_record_stays_task [OF u v(1) n]
  have s: "v \<in> set (task_invalidation_history (cascade_tasks db [t]))" .
  have "task_key t \<notin> set (map task_key (tasks (cascade_tasks db [t])))"
    unfolding in_task_keys_cascade_task by simp
  moreover have "composite_key (Some (tih_task_id v)) (Some (tih_project_id v)) = Some (task_key t)"
    using v(2) by (simp add: composite_key_def task_key_def)
  ultimately have "\<not> task_invalidation_history_fk_tasks (cascade_tasks db [t])"
    using s unfolding task_invalidation_history_fk_tasks_def list_all_iff references_key_iff
    by metis
  then have "\<not> schema_ok (cascade_tasks db [t])"
    by (simp add: schema_ok_def foreign_keys_ok_def)
  then show ?thesis
    by (simp add: session_delete_task_def commit_def)
qed

lemma task_delete_refused_feature:
  assumes f: "f \<in> set (features db)"
      "feat_task_id f = Some (task_id t) \<and> feat_project_id f = Some (task_project_id t)"
  shows "session_delete_task db t = Inl IntegrityError"
proof -
  from f(1) have s: "f \<in> set (features (cascade_tasks db [t]))"
    by (simp add: other_tables_cascade_tasks)
  have "task_key t \<notin> set (map task_key (tasks (cascade_tasks db [t])))"
    unfolding in_task_keys_cascade_task by simp
  moreover have "composite_key (feat_task_id f) (feat_project_id f) = Some (task_key t)"
    using f(2) by (simp add: composite_key_def task_key_def)
  ultimately have "\<not> features_fk_tasks (cascade_tasks db [t])"
    using s unfolding features_fk_tasks_def list_all_iff references_key_iff
    by metis
  then have "\<not> schema_ok (cascade_tasks db [t])"
    by (simp add: schema_ok_def foreign_keys_ok_def)
  then show ?thesis
    by (simp add: session_delete_task_def commit_def)
qed

lemma schema_ok_cascade_task:
  assumes ok: "schema_ok db"
    and linked: "\<forall>v\<in>set (task_invalidation_history db).
      tih_task_id v = task_id t \<and> tih_project_id v = task_project_id t \<longrightarrow>
      (\<exists>h\<in>set (task_history db).
         th_task_id h = task_id t \<and> th_project_id h = Some (task_project_id t)
         \<and> tih_invalidation_history_id v = Some (th_id h))"
    and nofeat: "\<forall>f\<in>set (features db).
      \<not> (feat_task_id f = Some (task_id t) \<and> feat_project_id f = Some (task_project_id t))"
  shows "schema_ok (cascade_tasks db [t])"
  using ok primary_keys_cascade_task [of db t] foreign_keys_cascade_task [OF _ linked nofeat]
  by (simp add: schema_ok_def organisations_unique_def other_tables_cascade_tasks)

lemma schema_ok_cascade_project:
  assumes ok: "schema_ok db"
    and linked: "\<forall>v\<in>set (task_invalidation_history db). tih_project_id v = prj_id p \<longrightarrow>
      (\<exists>h\<in>set (task_history db). th_project_id h = Some (prj_id p)
         \<and> tih_invalidation_history_id v = Some (th_id h))"
  shows "schema_ok (cascade_project db p)"
  using ok primary_keys_cascade_project [of db p] foreign_keys_cascade_project [OF _ linked]
  by (simp add: schema_ok_def organisations_unique_def)

lemma issues_cascade_project_rows:
  assumes hfk: "task_history_fk_tasks db"
    and i: "i \<in> set (task_mapping_issues (cascade_project db p))"
    and h: "h \<in> set (task_history db)" "th_project_id h = Some (prj_id p)"
  shows "tmi_task_history_id i \<noteq> th_id h"
proof -
  from i have m: "i \<in> set (task_mapping_issues db)"
    and n: "tmi_id i \<notin> tmi_id ` {i \<in> set (task_mapping_issues db).
      \<exists>h\<in>set (task_history db). th_project_id h = Some (prj_id p)
        \<and> (\<exists>t\<in>set (tasks db). task_id t = th_task_id h \<and> task_project_id t = prj_id p)
        \<and> tmi_task_history_id i = th_id h}"
    by (simp_all add: task_mapping_issues_cascade_project)
  from task_history_fk_tasks_row [OF hfk h] h m n
  show "tmi_task_history_id i \<noteq> th_id h" by blast
qed

lemma issues_cascade_task_rows:
  assumes i: "i \<in> set (task_mapping_issues (cascade_tasks db [t]))"
    and h: "h \<in> set (task_history db)"
      "th_task_id h = task_id t \<and> th_project_id h = Some (task_project_id t)"
  shows "tmi_task_history_id i \<noteq> th_id h"
proof -
  from i have m: "i \<in> set (task_mapping_issues db)"
    and n: "tmi_id i \<notin> tmi_id ` {i \<in> set (task_mapping_issues db).
        \<exists>h\<in>set (task_history db).
          th_task_id h = task_id t \<and> th_project_id h = Some (task_project_id t)
          \<and> tmi_task_history_id i = th_id h}"
    by (simp_all add: task_mapping_issues_cascade_task)
  from h m n show "tmi_task_history_id i \<noteq> th_id h" by blast
qed

text \<open>
  Claim C3, as amended. Let the state satisfy the declared constraints.

  Deleting a project through the session is committed exactly when every invalidation
  record of the project is linked, by \<^verbatim>\<open>invalidation_history_id\<close>, to a history row of
  the project. The new state then satisfies every declared constraint again, and it
  holds no project row, task, project info, chat message, history row or invalidation
  record of the project and no issue of one of the project's history rows. The
  feature rows of the project are not deleted: they stay, with \<^verbatim>\<open>project_id\<close> set to
  \<^verbatim>\<open>NULL\<close>; and the history rows whose \<^verbatim>\<open>project_id\<close> is \<^verbatim>\<open>NULL\<close> stay as they are.
  When a record of the project is not linked so, the commit is refused with an
  integrity error, and nothing is deleted.

  Deleting a task through the session is committed exactly when every invalidation
  record of the task is linked to a history row of the task and no feature row
  references the task. The new state then satisfies every declared constraint, holds
  the other tasks only, none of the task's history rows, no invalidation record of
  the task and no issue of one of its history rows. Otherwise the commit is refused
  with an integrity error, and nothing is deleted.
\<close>

theorem project_delete_cascades:
  assumes ok: "schema_ok db"
  shows "((\<forall>v\<in>set (task_invalidation_history db). tih_project_id v = prj_id p \<longrightarrow>
            (\<exists>h\<in>set (task_history db). th_project_id h = Some (prj_id p)
               \<and> tih_invalidation_history_id v = Some (th_id h)))
          \<longrightarrow> (\<exists>db'. session_delete_project db p = Inr db' \<and> schema_ok db'
                \<and> (\<forall>q\<in>set (projects db'). prj_id q \<noteq> prj_id p)
                \<and> (\<forall>t\<in>set (tasks db'). task_project_id t \<noteq> prj_id p)
                \<and> (\<forall>i\<in>set (project_info db'). pinfo_project_id i \<noteq> prj_id p)
                \<and> (\<forall>c\<in>set (project_chat db'). chat_project_id c \<noteq> prj_id p)
                \<and> (\<forall>h\<in>set (task_history db'). th_project_id h \<noteq> Some (prj_id p))
                \<and> (\<forall>v\<in>set (task_invalidation_history db'). tih_project_id v \<noteq> prj_id p)
                \<and> (\<forall>i\<in>set (task_mapping_issues db'). \<forall>h\<in>set (task_history db).
                     th_project_id h = Some (prj_id p) \<longrightarrow> tmi_task_history_id i \<noteq> th_id h)
                \<and> features db' =
                    map (\<lambda>f. if feat_project_id f = Some (prj_id p)
                             then f\<lparr>feat_project_id := None\<rparr> else f) (features db)
                \<and> filter (\<lambda>h. th_project_id h = None) (task_history db')
                    = filter (\<lambda>h. th_project_id h = None) (task_history db)))
       \<and> (\<not> (\<forall>v\<in>set (task_invalidation_history db). tih_project_id v = prj_id p \<longrightarrow>
               (\<exists>h\<in>set (task_history db). th_project_id h = Some (prj_id p)
                  \<and> tih_invalidation_history_id v = Some (th_id h)))
          \<longrightarrow> session_delete_project db p = Inl IntegrityError)
       \<and> ((\<forall>v\<in>set (task_invalidation_history db).
              tih_task_id v = task_id t \<and> tih_project_id v = task_project_id t \<longrightarrow>
              (\<exists>h\<in>set (task_history db).
                 th_task_id h = task_id t \<and> th_project_id h = Some (task_project_id t)
                 \<and> tih_invalidation_history_id v = Some (th_id h)))
           \<and> (\<forall>f\<in>set (features db).
                \<not> (feat_task_id f = Some (task_id t)
                    \<and> feat_project_id f = Some (task_project_id t)))
          \<longrightarrow> (\<exists>db''. session_delete_task db t = Inr db'' \<and> schema_ok db''
                \<and> tasks db'' = filter (\<lambda>u. task_key u \<noteq> task_key t) (tasks db)
                \<and> DbTask_task_history db'' t = []
                \<and> (\<forall>v\<in>set (task_invalidation_history db'').
                     \<not> (tih_task_id v = task_id t \<and> tih_project_id v = task_project_id t))
                \<and> (\<forall>i\<in>set (task_mapping_issues db''). \<forall>h\<in>set (task_history db).
                     th_task_id h = task_id t \<and> th_project_id h = Some (task_project_id t)
                     \<longrightarrow> tmi_task_history_id i \<noteq> th_id h)))
       \<and> (\<not> ((\<forall>v\<in>set (task_invalidation_history db).
              tih_task_id v = task_id t \<and> tih_project_id v = task_project_id t \<longrightarrow>
              (\<exists>h\<in>set (task_history db).
                 th_task_id h = task_id t \<and> th_project_id h = Some (task_project_id t)
                 \<and> tih_invalidation_history_id v = Some (th_id h)))
           \<and> (\<forall>f\<in>set (features db).
                \<not> (feat_task_id f = Some (task_id t)
                    \<and> feat_project_id f = Some (task_project_id t))))
          \<longrightarrow> session_delete_task db t = Inl IntegrityError)"
proof (intro conjI impI)
  let ?db = "cascade_project db p"
  assume linked: "\<forall>v\<in>set (task_invalidation_history db). tih_project_id v = prj_id p \<longrightarrow>
            (\<exists>h\<in>set (task_history db). th_project_id h = Some (prj_id p)
               \<and> tih_invalidation_history_id v = Some (th_id h))"
  from ok have hfk: "task_history_fk_tasks db"
    and uh: "unique_on th_id (task_history db)"
    by (simp_all add: schema_ok_def foreign_keys_ok_def primary_keys_ok_def)
  have ok': "schema_ok ?db"
    by (rule schema_ok_cascade_project [OF ok linked])
  then have run: "session_delete_project db p = Inr ?db"
    by (simp add: session_delete_project_def commit_def)
  have a: "\<forall>q\<in>set (projects ?db). prj_id q \<noteq> prj_id p"
    by (simp add: projects_cascade_project)
  have b: "\<forall>t\<in>set (tasks ?db). task_project_id t \<noteq> prj_id p"
    by (simp add: tasks_cascade_project)
  have c: "\<forall>i\<in>set (project_info ?db). pinfo_project_id i \<noteq> prj_id p"
    by (simp add: project_info_cascade_project)
  have d: "\<forall>c\<in>set (project_chat ?db). chat_project_id c \<noteq> prj_id p"
    using project_chat_cascade_project [of db p] by blast
  have e: "\<forall>h\<in>set (task_history ?db). th_project_id h \<noteq> Some (prj_id p)"
    using remaining_task_history [OF hfk] by blast
  have f: "\<forall>v\<in>set (task_invalidation_history ?db). tih_project_id v \<noteq> prj_id p"
    using remaining_task_invalidation_history [OF hfk linked] by blast
  have g: "\<forall>i\<in>set (task_mapping_issues ?db). \<forall>h\<in>set (task_history db).
               th_project_id h = Some (prj_id p) \<longrightarrow> tmi_task_history_id i \<noteq> th_id h"
    using issues_cascade_project_rows [OF hfk] by blast
  note h = features_cascade_project [of db p]
  note i = null_project_history_cascade_project [OF uh, of p]
  from run ok' a b c d e f g h i
  show "\<exists>db'. session_delete_project db p = Inr db' \<and> schema_ok db'
                \<and> (\<forall>q\<in>set (projects db'). prj_id q \<noteq> prj_id p)
                \<and> (\<forall>t\<in>set (tasks db'). task_project_id t \<noteq> prj_id p)
                \<and> (\<forall>i\<in>set (project_info db'). pinfo_project_id i \<noteq> prj_id p)
                \<and> (\<forall>c\<in>set (project_chat db'). chat_project_id c \<noteq> prj_id p)
                \<and> (\<forall>h\<in>set (task_history db'). th_project_id h \<noteq> Some (prj_id p))
                \<and> (\<forall>v\<in>set (task_invalidation_history db'). tih_project_id v \<noteq> prj_id p)
                \<and> (\<forall>i\<in>set (task_mapping_issues db'). \<forall>h\<in>set (task_history db).
                     th_project_id h = Some (prj_id p) \<longrightarrow> tmi_task_history_id i \<noteq> th_id h)
                \<and> features db' =
                    map (\<lambda>f. if feat_project_id f = Some (prj_id p)
                             then f\<lparr>feat_project_id := None\<rparr> else f) (features db)
                \<and> filter (\<lambda>h. th_project_id h = None) (task_history db')
                    = filter (\<lambda>h. th_project_id h = None) (task_history db)"
    by (intro exI [of _ ?db] conjI)
next
  assume "\<not> (\<forall>v\<in>set (task_invalidation_history db). tih_project_id v = prj_id p \<longrightarrow>
               (\<exists>h\<in>set (task_history db). th_project_id h = Some (prj_id p)
                  \<and> tih_invalidation_history_id v = Some (th_id h)))"
  then obtain v where "v \<in> set (task_invalidation_history db)" "tih_project_id v = prj_id p"
    "\<not> (\<exists>h\<in>set (task_history db). th_project_id h = Some (prj_id p)
         \<and> tih_invalidation_history_id v = Some (th_id h))"
    by blast
  then show "session_delete_project db p = Inl IntegrityError"
    by (rule project_delete_refused [OF ok])
next
  let ?db = "cascade_tasks db [t]"
  assume cond: "(\<forall>v\<in>set (task_invalidation_history db).
              tih_task_id v = task_id t \<and> tih_project_id v = task_project_id t \<longrightarrow>
              (\<exists>h\<in>set (task_history db).
                 th_task_id h = task_id t \<and> th_project_id h = Some (task_project_id t)
                 \<and> tih_invalidation_history_id v = Some (th_id h)))
           \<and> (\<forall>f\<in>set (features db).
                \<not> (feat_task_id f = Some (task_id t)
                    \<and> feat_project_id f = Some (task_project_id t)))"
  then have linked: "\<forall>v\<in>set (task_invalidation_history db).
              tih_task_id v = task_id t \<and> tih_project_id v = task_project_id t \<longrightarrow>
              (\<exists>h\<in>set (task_history db).
                 th_task_id h = task_id t \<and> th_project_id h = Some (task_project_id t)
                 \<and> tih_invalidation_history_id v = Some (th_id h))"
    and nofeat: "\<forall>f\<in>set (features db).
                \<not> (feat_task_id f = Some (task_id t)
                    \<and> feat_project_id f = Some (task_project_id t))"
    by simp_all
  have ok': "schema_ok ?db"
    by (rule schema_ok_cascade_task [OF ok linked nofeat])
  then have run: "session_delete_task db t = Inr ?db"
    by (simp add: session_delete_task_def commit_def)
  note a = tasks_cascade_task [of db t]
  note b = task_history_cascade_tasks_single [of db t]
  have c: "\<forall>v\<in>set (task_invalidation_history ?db).
             \<not> (tih_task_id v = task_id t \<and> tih_project_id v = task_project_id t)"
    using remaining_task_invalidation_history_task [OF linked] by blast
  have d: "\<forall>i\<in>set (task_mapping_issues ?db). \<forall>h\<in>set (task_history db).
             th_task_id h = task_id t \<and> th_project_id h = Some (task_project_id t)
             \<longrightarrow> tmi_task_history_id i \<noteq> th_id h"
    using issues_cascade_task_rows [of _ db t] by blast
  from run ok' a b c d
  show "\<exists>db''. session_delete_task db t = Inr db'' \<and> schema_ok db''
                \<and> tasks db'' = filter (\<lambda>u. task_key u \<noteq> task_key t) (tasks db)
                \<and> DbTask_task_history db'' t = []
                \<and> (\<forall>v\<in>set (task_invalidation_history db'').
                     \<not> (tih_task_id v = task_id t \<and> tih_project_id v = task_project_id t))
                \<and> (\<forall>i\<in>set (task_mapping_issues db''). \<forall>h\<in>set (task_history db).
                     th_task_id h = task_id t \<and> th_project_id h = Some (task_project_id t)
                     \<longrightarrow> tmi_task_history_id i \<noteq> th_id h)"
    by (intro exI [of _ ?db] conjI)
next
  assume "\<not> ((\<forall>v\<in>set (task_invalidation_history db).
              tih_task_id v = task_id t \<and> tih_project_id v = task_project_id t \<longrightarrow>
              (\<exists>h\<in>set (task_history db).
                 th_task_id h = task_id t \<and> th_project_id h = Some (task_project_id t)
                 \<and> tih_invalidation_history_id v = Some (th_id h)))
           \<and> (\<forall>f\<in>set (features db).
                \<not> (feat_task_id f = Some (task_id t)
                    \<and> feat_project_id f = Some (task_project_id t))))"
  then consider
    (unlinked) v where "v \<in> set (task_invalidation_history db)"
      "tih_task_id v = task_id t \<and> tih_project_id v = task_project_id t"
      "\<not> (\<exists>h\<in>set (task_history db).
         th_task_id h = task_id t \<and> th_project_id h = Some (task_project_id t)
         \<and> tih_invalidation_history_id v = Some (th_id h))"
    | (referenced) f where "f \<in> set (features db)"
      "feat_task_id f = Some (task_id t) \<and> feat_project_id f = Some (task_project_id t)"
    by blast
  then show "session_delete_task db t = Inl IntegrityError"
  proof cases
    case unlinked
    then show ?thesis by (rule task_delete_refused_record [OF ok])
  next
    case referenced
    then show ?thesis by (rule task_delete_refused_feature)
  qed
qed

text \<open>
  Project 1 of the example state, with two tasks of two history rows each: what is left
  are the rows of project 2, and the feature row 1 with no project. Deleting task 2 of
  project 1 alone leaves the history rows 1, 2 and 5.
\<close>

theorem project_delete_cascades_witness:
  "schema_ok example_store
   \<and> (\<exists>db'. session_delete_project example_store (example_project 1) = Inr db'
         \<and> schema_ok db'
         \<and> map task_key (tasks db') = [(1, 2)]
         \<and> map th_id (task_history db') = [5]
         \<and> map tih_id (task_invalidation_history db') = [2]
         \<and> map tmi_id (task_mapping_issues db') = [2]
         \<and> map pinfo_project_id (project_info db') = [2]
         \<and> map chat_id (project_chat db') = [2]
         \<and> map feat_project_id (features db') = [None, Some 2])
   \<and> (\<exists>db''. session_delete_task example_store (example_task 2 1 MAPPED) = Inr db''
         \<and> schema_ok db''
         \<and> map task_key (tasks db'') = [(1, 1), (1, 2)]
         \<and> map th_id (task_history db'') = [1, 2, 5])"
proof -
  have linked: "\<forall>v\<in>set (task_invalidation_history example_store).
      tih_project_id v = prj_id (example_project 1) \<longrightarrow>
      (\<exists>h\<in>set (task_history example_store). th_project_id h = Some (prj_id (example_project 1))
         \<and> tih_invalidation_history_id v = Some (th_id h))"
    by code_simp
  have cond: "(\<forall>v\<in>set (task_invalidation_history example_store).
              tih_task_id v = task_id (example_task 2 1 MAPPED)
              \<and> tih_project_id v = task_project_id (example_task 2 1 MAPPED) \<longrightarrow>
              (\<exists>h\<in>set (task_history example_store).
                 th_task_id h = task_id (example_task 2 1 MAPPED)
                 \<and> th_project_id h = Some (task_project_id (example_task 2 1 MAPPED))
                 \<and> tih_invalidation_history_id v = Some (th_id h)))
           \<and> (\<forall>f\<in>set (features example_store).
                \<not> (feat_task_id f = Some (task_id (example_task 2 1 MAPPED))
                    \<and> feat_project_id f = Some (task_project_id (example_task 2 1 MAPPED))))"
    by code_simp
  note inst = project_delete_cascades [OF schema_ok_example_store,
      of "example_project 1" "example_task 2 1 MAPPED"]
  from inst [THEN conjunct1, THEN mp, OF linked]
  obtain db' where run: "session_delete_project example_store (example_project 1) = Inr db'"
    and ok': "schema_ok db'"
    by blast
  from inst [THEN conjunct2, THEN conjunct2, THEN conjunct1, THEN mp, OF cond]
  obtain db'' where run2: "session_delete_task example_store (example_task 2 1 MAPPED) = Inr db''"
    and ok'': "schema_ok db''"
    by blast
  from run have eq: "db' = cascade_project example_store (example_project 1)"
    by (simp add: session_delete_project_def commit_def split: if_splits)
  from run2 have eq2: "db'' = cascade_tasks example_store [example_task 2 1 MAPPED]"
    by (simp add: session_delete_task_def commit_def split: if_splits)
  have rows: "map task_key (tasks (cascade_project example_store (example_project 1))) = [(1, 2)]"
    "map th_id (task_history (cascade_project example_store (example_project 1))) = [5]"
    "map tih_id (task_invalidation_history (cascade_project example_store (example_project 1)))
       = [2]"
    "map tmi_id (task_mapping_issues (cascade_project example_store (example_project 1))) = [2]"
    "map pinfo_project_id (project_info (cascade_project example_store (example_project 1))) = [2]"
    "map chat_id (project_chat (cascade_project example_store (example_project 1))) = [2]"
    "map feat_project_id (features (cascade_project example_store (example_project 1)))
       = [None, Some 2]"
    by code_simp+
  have rows2: "map task_key (tasks (cascade_tasks example_store [example_task 2 1 MAPPED]))
      = [(1, 1), (1, 2)]"
    "map th_id (task_history (cascade_tasks example_store [example_task 2 1 MAPPED]))
      = [1, 2, 5]"
    by code_simp+
  from schema_ok_example_store run ok' rows run2 ok'' rows2 show ?thesis
    unfolding eq eq2 by simp
qed

text \<open>
  Claim C3 as it is stated fails. An invalidation record belongs to a project and a task
  by its own columns, but the only relationship that leads to it starts at a history
  row, and \<^verbatim>\<open>invalidation_history_id\<close> may be \<^verbatim>\<open>NULL\<close>. In the first state below the
  cascade deletes the project and its task and does not reach the record, which would
  be left without project and task; the store refuses the commit, and nothing is
  deleted. In the example state the feature row 1 references task 1 of project 1, and
  no relationship leads from the task to the row: deleting the task is refused, and
  its history rows 2 and 1 stay.
\<close>

theorem project_delete_counterexample:
  "schema_ok unlinked_store
   \<and> set (map tih_project_id (task_invalidation_history unlinked_store))
       = {prj_id (example_project 1)}
   \<and> session_delete_project unlinked_store (example_project 1) = Inl IntegrityError
   \<and> tasks (cascade_project unlinked_store (example_project 1)) = []
   \<and> task_invalidation_history (cascade_project unlinked_store (example_project 1))
       = [example_invalidation 1 1 1 (Some False) None]
   \<and> schema_ok example_store
   \<and> session_delete_task example_store (example_task 1 1 VALIDATED) = Inl IntegrityError
   \<and> map th_id (DbTask_task_history example_store (example_task 1 1 VALIDATED)) = [2, 1]"
proof -
  have ok: "schema_ok unlinked_store"
    by code_simp
  have own: "set (map tih_project_id (task_invalidation_history unlinked_store))
       = {prj_id (example_project 1)}"
    by code_simp
  have run: "session_delete_project unlinked_store (example_project 1) = Inl IntegrityError"
    by code_simp
  have c: "tasks (cascade_project unlinked_store (example_project 1)) = []"
    "task_invalidation_history (cascade_project unlinked_store (example_project 1))
       = [example_invalidation 1 1 1 (Some False) None]"
    by code_simp+
  have t: "session_delete_task example_store (example_task 1 1 VALIDATED) = Inl IntegrityError"
    "map th_id (DbTask_task_history example_store (example_task 1 1 VALIDATED)) = [2, 1]"
    by code_simp+
  from ok own run c t schema_ok_example_store show ?thesis by simp
qed

subsection \<open>The organisation routes\<close>

text \<open>
  Claim C9. When the lookup by id finds no organisation, the detail route and the delete
  route both raise the HTTP error 404 "Organization not found"; the delete route has
  then called no delete, and the store is the one it was given. The lookup finds none
  when no row of \<^verbatim>\<open>organisations\<close> has the id.
\<close>

theorem organisation_not_found:
  "(get_organisation_by_id db organization_id = Inr None \<longrightarrow>
      get_organization_detail get_organisation_by_id db organization_id
        = Inl (HTTPException 404 ''Organization not found'')
      \<and> delete_organisations get_organisation_by_id session_delete db organization_id
        = (Inl (HTTPException 404 ''Organization not found''), db))
   \<and> ((\<forall>org\<in>set (organisations db). org_id org \<noteq> organization_id) \<longrightarrow>
        crud_get_organisation_by_id db organization_id = Inr None
        \<and> get_organization_detail crud_get_organisation_by_id db organization_id
          = Inl (HTTPException 404 ''Organization not found'')
        \<and> delete_organisations crud_get_organisation_by_id session_delete db organization_id
          = (Inl (HTTPException 404 ''Organization not found''), db))"
proof -
  have "find (\<lambda>org. org_id org = organization_id) (organisations db) = None"
    if "\<forall>org\<in>set (organisations db). org_id org \<noteq> organization_id"
    using that by (simp add: find_None_iff)
  then show ?thesis
    by (simp add: get_organization_detail_def delete_organisations_def
        crud_get_organisation_by_id_def)
qed

text \<open>The example state has no organisation 9.\<close>

theorem organisation_not_found_witness:
  "crud_get_organisation_by_id example_store 9 = Inr None
   \<and> get_organization_detail crud_get_organisation_by_id example_store 9
       = Inl (HTTPException 404 ''Organization not found'')
   \<and> delete_organisations crud_get_organisation_by_id (\<lambda>db org. Inr empty_database) example_store 9
       = (Inl (HTTPException 404 ''Organization not found''), example_store)"
proof -
  have none: "\<forall>org\<in>set (organisations example_store). org_id org \<noteq> 9"
    by (simp add: example_store_def)
  from organisation_not_found [of crud_get_organisation_by_id example_store 9
      "\<lambda>db org. Inr empty_database"] none
  show ?thesis by simp
qed

text \<open>
  Claim C10. Whatever exception the update raises, the update route raises the HTTP error
  400 whose detail is "Error updating organization: " followed by the exception's
  text; what the update returns, the route returns. So every error of the route is a
  400 of that shape and none is a 404, also when the update itself raises a 404 for an
  organisation that does not exist, where the detail and the delete route raise the
  404.
\<close>

theorem update_organization_raises_400:
  "(update_organization_info db organization_id name description url logo = (Inl e, db') \<longrightarrow>
      update_organization str_of update_organization_info db organization_id name description url logo
        = (Inl (HTTPException 400 (''Error updating organization: '' @ str_of e)), db'))
   \<and> (update_organization_info db organization_id name description url logo = (Inr organization, db') \<longrightarrow>
      update_organization str_of update_organization_info db organization_id name description url logo
        = (Inr organization, db'))
   \<and> (\<forall>err. fst (update_organization str_of update_organization_info db organization_id name
                    description url logo) = Inl err \<longrightarrow>
        (\<exists>raised. err = HTTPException 400 (''Error updating organization: '' @ str_of raised)))
   \<and> (\<forall>detail. fst (update_organization str_of update_organization_info db organization_id name
                    description url logo) \<noteq> Inl (HTTPException 404 detail))"
proof (cases "update_organization_info db organization_id name description url logo")
  case (Pair r d)
  show ?thesis
  proof (cases r)
    case (Inl raised)
    with Pair show ?thesis by (auto simp: update_organization_def)
  next
    case (Inr returned)
    with Pair show ?thesis by (simp add: update_organization_def)
  qed
qed

text \<open>An update that raises 404 for the missing organisation 9.\<close>

theorem update_organization_raises_400_witness:
  "update_organization (\<lambda>e. ''404: Organization not found'')
       (\<lambda>db i n d u l. (Inl (HTTPException 404 ''Organization not found'') :: py_exception + DbOrganisation, db))
       example_store 9 None None None None
     = (Inl (HTTPException 400 ''Error updating organization: 404: Organization not found''),
        example_store)
   \<and> get_organization_detail crud_get_organisation_by_id example_store 9
       = Inl (HTTPException 404 ''Organization not found'')"
proof -
  have g: "get_organization_detail crud_get_organisation_by_id example_store 9
       = Inl (HTTPException 404 ''Organization not found'')"
    by code_simp
  have h: "(\<lambda>db i n d u l. (Inl (HTTPException 404 ''Organization not found'')
               :: py_exception + DbOrganisation, db)) example_store 9 None None None None
           = (Inl (HTTPException 404 ''Organization not found''), example_store)"
    by simp
  note w = update_organization_raises_400 [of
      "\<lambda>db i n d u l. (Inl (HTTPException 404 ''Organization not found'')
          :: py_exception + DbOrganisation, db)"
      example_store 9 None None None None "HTTPException 404 ''Organization not found''"
      example_store "\<lambda>e. ''404: Organization not found''", THEN conjunct1, THEN mp, OF h]
  have "''Error updating organization: '' @ ''404: Organization not found''
      = ''Error updating organization: 404: Organization not found''"
    by simp
  with w g show ?thesis by simp
qed

subsection \<open>Creating an organisation\<close>

text \<open>
  Claim C6, as amended. When the lookup by name finds an organisation, the create route
  raises the HTTP error 400 "Organization already exists with the name ..." and
  leaves the store as it was; the lookup finds one whenever a row of
  \<^verbatim>\<open>organisations\<close> has the name. Under the unique constraints two organisations with
  the same name, or with the same slug, are one. When the lookup finds none, the route
  calls \<^verbatim>\<open>organization_crud.create_organization\<close>: it returns the success message when
  the call returns, and raises what the call raises.
\<close>

theorem create_organization_existing_name:
  "(get_organisation_by_name db name = Inr (Some found) \<longrightarrow>
      create_organization get_organisation_by_name crud_create db name description url logo
        = (Inl (HTTPException 400 (''Organization already exists with the name '' @ name)), db))
   \<and> ((\<exists>org\<in>set (organisations db). org_name org = name) \<longrightarrow>
        (\<exists>org. crud_get_organisation_by_name db name = Inr (Some org))
        \<and> create_organization crud_get_organisation_by_name crud_create db name description url logo
          = (Inl (HTTPException 400 (''Organization already exists with the name '' @ name)), db))
   \<and> (organisations_unique db \<longrightarrow>
        (\<forall>a\<in>set (organisations db). \<forall>b\<in>set (organisations db).
           org_name a = org_name b \<or> org_slug a = org_slug b \<longrightarrow> a = b))
   \<and> (get_organisation_by_name db name = Inr None \<longrightarrow>
        (crud_create db name description url logo = (Inr created, db') \<longrightarrow>
           create_organization get_organisation_by_name crud_create db name description url logo
             = (Inr [(''Message'', ''Organization Created Successfully.'')], db'))
        \<and> (crud_create db name description url logo = (Inl e, db') \<longrightarrow>
           create_organization get_organisation_by_name crud_create db name description url logo
             = (Inl e, db')))"
proof (intro conjI impI)
  assume "get_organisation_by_name db name = Inr (Some found)"
  then show "create_organization get_organisation_by_name crud_create db name description url logo
        = (Inl (HTTPException 400 (''Organization already exists with the name '' @ name)), db)"
    by (simp add: create_organization_def)
next
  assume ex: "\<exists>org\<in>set (organisations db). org_name org = name"
  then have "find (\<lambda>org. org_name org = name) (organisations db) \<noteq> None"
    by (auto simp: find_None_iff)
  then obtain org where f: "crud_get_organisation_by_name db name = Inr (Some org)"
    by (auto simp: crud_get_organisation_by_name_def)
  then show "\<exists>org. crud_get_organisation_by_name db name = Inr (Some org)" by blast
  from f show "create_organization crud_get_organisation_by_name crud_create db name description url logo
          = (Inl (HTTPException 400 (''Organization already exists with the name '' @ name)), db)"
    by (simp add: create_organization_def)
next
  assume u: "organisations_unique db"
  show "\<forall>a\<in>set (organisations db). \<forall>b\<in>set (organisations db).
           org_name a = org_name b \<or> org_slug a = org_slug b \<longrightarrow> a = b"
    using u unique_on_eq [of org_name "organisations db"] unique_on_eq [of org_slug "organisations db"]
    unfolding organisations_unique_def by blast
next
  assume "get_organisation_by_name db name = Inr None"
    and "crud_create db name description url logo = (Inr created, db')"
  then show "create_organization get_organisation_by_name crud_create db name description url logo
             = (Inr [(''Message'', ''Organization Created Successfully.'')], db')"
    by (simp add: create_organization_def)
next
  assume "get_organisation_by_name db name = Inr None"
    and "crud_create db name description url logo = (Inl e, db')"
  then show "create_organization get_organisation_by_name crud_create db name description url logo
             = (Inl e, db')"
    by (simp add: create_organization_def)
qed

text \<open>
  The example state has the organisation "a-b": creating it again is refused, whatever
  the insert would do; creating "c" with an insert that returns gives the message.
\<close>

theorem create_organization_existing_name_witness:
  "(\<exists>org\<in>set (organisations example_store). org_name org = ''a-b'')
   \<and> create_organization crud_get_organisation_by_name
       (\<lambda>db name description url logo. (Inr name, db)) example_store ''a-b'' None None None
     = (Inl (HTTPException 400 ''Organization already exists with the name a-b''), example_store)
   \<and> organisations_unique example_store
   \<and> create_organization crud_get_organisation_by_name
       (\<lambda>db name description url logo. (Inr name, db)) example_store ''c'' None None None
     = (Inr [(''Message'', ''Organization Created Successfully.'')], example_store)"
proof -
  have ex: "\<exists>org\<in>set (organisations example_store). org_name org = ''a-b''"
    by (simp add: example_store_def)
  note w = create_organization_existing_name [of crud_get_organisation_by_name example_store
      "''a-b''" _ "\<lambda>db name description url logo. (Inr name, db)" None None None,
      THEN conjunct2, THEN conjunct1, THEN mp, OF ex, THEN conjunct2]
  have s: "''Organization already exists with the name '' @ ''a-b''
      = ''Organization already exists with the name a-b''"
    by simp
  have u: "organisations_unique example_store"
    by code_simp
  have c: "create_organization crud_get_organisation_by_name
       (\<lambda>db name description url logo. (Inr name, db)) example_store ''c'' None None None
     = (Inr [(''Message'', ''Organization Created Successfully.'')], example_store)"
    by code_simp
  from ex w s u c show ?thesis by simp
qed

text \<open>
  Claim C6 as it is stated does not hold of the route: its last part depends on the
  call of \<^verbatim>\<open>organization_crud.create_organization\<close>, around which the route has no
  handler. No organisation of the example state is named "c"; with an insert that
  raises, the route raises the same exception instead of returning its message.
\<close>

theorem create_organization_counterexample:
  "''c'' \<notin> set (map org_name (organisations example_store))
   \<and> crud_get_organisation_by_name example_store ''c'' = Inr None
   \<and> create_organization crud_get_organisation_by_name
       (\<lambda>db name description url logo. (Inl IntegrityError :: py_exception + unit, db))
       example_store ''c'' None None None
     = (Inl IntegrityError, example_store)"
proof -
  have "''c'' \<notin> set (map org_name (organisations example_store))"
    by code_simp
  moreover have "crud_get_organisation_by_name example_store ''c'' = Inr None"
    by code_simp
  moreover have "create_organization crud_get_organisation_by_name
       (\<lambda>db name description url logo. (Inl IntegrityError :: py_exception + unit, db))
       example_store ''c'' None None None = (Inl IntegrityError, example_store)"
    by code_simp
  ultimately show ?thesis by simp
qed

subsection \<open>The transition table\<close>

lemma find_by_task_key:
  assumes "pk_tasks db" "t \<in> set (tasks db)"
  shows "find (\<lambda>u. task_key u = task_key t) (tasks db) = Some t"
proof -
  have "distinct (map task_key xs) \<Longrightarrow> t \<in> set xs \<Longrightarrow>
      find (\<lambda>u. task_key u = task_key t) xs = Some t" for xs
    by (induction xs) (auto simp: image_iff)
  with assms show ?thesis by (simp add: pk_tasks_def)
qed

lemma filter_by_task_key:
  assumes "pk_tasks db" "t \<in> set (tasks db)"
  shows "filter (\<lambda>u. task_key u = task_key t) (tasks db) = [t]"
proof -
  have "distinct (map task_key xs) \<Longrightarrow> t \<in> set xs \<Longrightarrow>
      filter (\<lambda>u. task_key u = task_key t) xs = [t]" for xs
    by (induction xs) (auto simp: image_iff filter_empty_conv)
  with assms show ?thesis by (simp add: pk_tasks_def)
qed

lemma task_key_step_task [simp]: "task_key (step_task action s' actor u) = task_key u"
  by (cases action) (simp_all add: step_task_def task_key_def)

lemma task_status_step_task [simp]: "task_status (step_task action s' actor u) = Some s'"
  by (simp add: step_task_def)

lemma filter_key_update:
  "filter (\<lambda>u. task_key u = k)
     (map (\<lambda>u. if task_key u = k then step_task action s' actor u else u) xs)
   = map (step_task action s' actor) (filter (\<lambda>u. task_key u = k) xs)"
  by (induction xs) simp_all

lemma filter_other_update:
  "filter (\<lambda>u. task_key u \<noteq> k)
     (map (\<lambda>u. if task_key u = k then step_task action s' actor u else u) xs)
   = filter (\<lambda>u. task_key u \<noteq> k) xs"
  by (induction xs) simp_all

lemma map_task_key_update:
  "map task_key (map (\<lambda>u. if task_key u = k then step_task action s' actor u else u) xs)
   = map task_key xs"
  by (induction xs) simp_all

lemma tasks_apply_transition:
  "tasks (snd (apply_transition db k task action s' actor action_text now))
     = map (\<lambda>u. if task_key u = k then step_task action s' actor u else u) (tasks db)"
  by (simp add: apply_transition_def Let_def)

lemma task_history_apply_transition:
  "task_history (snd (apply_transition db k task action s' actor action_text now))
     = task_history db @ [fst (apply_transition db k task action s' actor action_text now)]"
  by (simp add: apply_transition_def Let_def)

lemma row_apply_transition:
  "th_task_id (fst (apply_transition db k task action s' actor action_text now)) = fst k"
  "th_project_id (fst (apply_transition db k task action s' actor action_text now)) = Some (snd k)"
  "th_action (fst (apply_transition db k task action s' actor action_text now)) = action"
  "th_user_id (fst (apply_transition db k task action s' actor action_text now)) = actor"
  "th_action_date (fst (apply_transition db k task action s' actor action_text now)) = now"
  "th_action_text (fst (apply_transition db k task action s' actor action_text now)) = action_text"
  by (simp_all add: apply_transition_def Let_def)

lemma task_invalidation_history_apply_transition:
  "task_invalidation_history (snd (apply_transition db k task action s' actor action_text now))
     = (if action = Act_MARK_BAD \<and> task_status task = Some VALIDATED
        then record_invalidation (task_invalidation_history db) k task actor
               (1 + fold max (map th_id (task_history db)) 0) now
        else if action = Act_VALIDATED
        then record_validation (task_invalidation_history db) k actor now
        else task_invalidation_history db)"
  by (simp add: apply_transition_def Let_def)

lemma lock_conflict_None_iff:
  "lock_conflict t action actor = None \<longleftrightarrow>
     locked_by t = None
     \<or> (locked_by t = Some actor \<and> action \<notin> {Act_LOCK_FOR_MAPPING, Act_LOCK_FOR_VALIDATION})"
  by (cases action; cases "locked_by t") (auto simp: lock_conflict_def)

lemma lock_conflict_Some_iff:
  "lock_conflict t action actor = Some holder \<longleftrightarrow>
     locked_by t = Some holder
     \<and> (holder \<noteq> actor \<or> action \<in> {Act_LOCK_FOR_MAPPING, Act_LOCK_FOR_VALIDATION})"
  by (cases action; cases "locked_by t") (auto simp: lock_conflict_def)

lemma apply_action_found:
  assumes "pk_tasks db" "t \<in> set (tasks db)"
  shows "apply_action pol db (task_key t) action actor action_text now =
     (case lock_conflict t action actor of
        Some holder \<Rightarrow> (Inl (LockConflict holder), db)
      | None \<Rightarrow>
          (case (case task_status t of
                   None \<Rightarrow> None
                 | Some s \<Rightarrow> transition_table pol s action) of
             None \<Rightarrow> (Inl InvalidTransition, db)
           | Some s' \<Rightarrow>
               (Inr (fst (apply_transition db (task_key t) t action s' actor action_text now)),
                snd (apply_transition db (task_key t) t action s' actor action_text now))))"
  by (simp add: apply_action_def find_by_task_key [OF assms] split_beta
      split: option.splits)

lemma status_transition_iff:
  "(case status of None \<Rightarrow> None | Some s \<Rightarrow> transition_table pol s action) = Some s' \<longleftrightarrow>
     (status, action, s') \<in>
       {(Some READY, Act_LOCK_FOR_MAPPING, LOCKED_FOR_MAPPING),
        (Some LOCKED_FOR_MAPPING, Act_MAPPED, MAPPED),
        (Some LOCKED_FOR_MAPPING, Act_COMMENT, LOCKED_FOR_MAPPING),
        (Some LOCKED_FOR_MAPPING, Act_UNLOCK, READY),
        (Some MAPPED, Act_LOCK_FOR_VALIDATION, LOCKED_FOR_VALIDATION),
        (Some MAPPED, Act_COMMENT, MAPPED),
        (Some LOCKED_FOR_VALIDATION, Act_VALIDATED, VALIDATED),
        (Some LOCKED_FOR_VALIDATION, Act_MARK_BAD, BAD),
        (Some LOCKED_FOR_VALIDATION, Act_COMMENT, LOCKED_FOR_VALIDATION),
        (Some LOCKED_FOR_VALIDATION, Act_UNLOCK, MAPPED),
        (Some VALIDATED, Act_MARK_BAD, reopen_status pol)}"
proof (cases status)
  case None
  then show ?thesis by simp
next
  case (Some s)
  then show ?thesis by (cases s; cases action) auto
qed

lemma status_transition_None_iff:
  "(case status of None \<Rightarrow> None | Some s \<Rightarrow> transition_table pol s action) = None \<longleftrightarrow>
     (status, action) \<notin>
       {(Some READY, Act_LOCK_FOR_MAPPING),
        (Some LOCKED_FOR_MAPPING, Act_MAPPED),
        (Some LOCKED_FOR_MAPPING, Act_COMMENT),
        (Some LOCKED_FOR_MAPPING, Act_UNLOCK),
        (Some MAPPED, Act_LOCK_FOR_VALIDATION),
        (Some MAPPED, Act_COMMENT),
        (Some LOCKED_FOR_VALIDATION, Act_VALIDATED),
        (Some LOCKED_FOR_VALIDATION, Act_MARK_BAD),
        (Some LOCKED_FOR_VALIDATION, Act_COMMENT),
        (Some LOCKED_FOR_VALIDATION, Act_UNLOCK),
        (Some VALIDATED, Act_MARK_BAD)}"
proof (cases status)
  case None
  then show ?thesis by simp
next
  case (Some s)
  then show ?thesis by (cases s; cases action) auto
qed

lemma apply_action_result:
  assumes pk: "pk_tasks db" and t: "t \<in> set (tasks db)"
    and run: "apply_action pol db (task_key t) action actor action_text now = (Inr row, db')"
  shows "\<exists>s'. lock_conflict t action actor = None
      \<and> (case task_status t of None \<Rightarrow> None | Some s \<Rightarrow> transition_table pol s action) = Some s'
      \<and> row = fst (apply_transition db (task_key t) t action s' actor action_text now)
      \<and> db' = snd (apply_transition db (task_key t) t action s' actor action_text now)"
proof (cases "lock_conflict t action actor")
  case (Some holder)
  with run show ?thesis
    unfolding apply_action_found [OF pk t] by simp
next
  case None
  note lc = this
  show ?thesis
  proof (cases "case task_status t of None \<Rightarrow> None | Some s \<Rightarrow> transition_table pol s action")
    case None
    with run lc show ?thesis
      unfolding apply_action_found [OF pk t] by simp
  next
    case (Some s')
    with run lc show ?thesis
      unfolding apply_action_found [OF pk t] by simp
  qed
qed

text \<open>
  Claim C1, as amended. For a task of the store and any action, \<^verbatim>\<open>apply_action\<close>
  first looks at the lock: when the task is locked, every action of a user who is not
  the holder, and every locking action, fails with \<open>LockConflict\<close> naming the holder.
  Otherwise the action succeeds exactly when it stands in the row of the task's status
  in the transition table: \<open>READY\<close> allows locking for mapping; \<open>LOCKED_FOR_MAPPING\<close>
  allows mapped, comment and unlock, to \<open>READY\<close>; \<open>MAPPED\<close> allows locking for
  validation and comment; \<open>LOCKED_FOR_VALIDATION\<close> allows validated, mark bad, comment
  and unlock, to \<open>MAPPED\<close>; \<open>VALIDATED\<close> allows mark bad, which reopens the task into
  the status of the policy. A success writes the target status of the table to the
  task, leaves every other task as it was and appends one history row, of the task,
  the action, the actor and the time. Any other pair of status and action fails with
  \<open>InvalidTransition\<close>. After either failure the store, the task's status with it, is
  the one before.
\<close>

theorem apply_action_follows_table:
  assumes "pk_tasks db" and "t \<in> set (tasks db)"
  shows "(\<forall>row db'. apply_action pol db (task_key t) action actor action_text now = (Inr row, db') \<longrightarrow>
            (locked_by t = None
             \<or> (locked_by t = Some actor
                \<and> action \<notin> {Act_LOCK_FOR_MAPPING, Act_LOCK_FOR_VALIDATION}))
          \<and> (\<exists>s'. (task_status t, action, s') \<in>
                 {(Some READY, Act_LOCK_FOR_MAPPING, LOCKED_FOR_MAPPING),
                  (Some LOCKED_FOR_MAPPING, Act_MAPPED, MAPPED),
                  (Some LOCKED_FOR_MAPPING, Act_COMMENT, LOCKED_FOR_MAPPING),
                  (Some LOCKED_FOR_MAPPING, Act_UNLOCK, READY),
                  (Some MAPPED, Act_LOCK_FOR_VALIDATION, LOCKED_FOR_VALIDATION),
                  (Some MAPPED, Act_COMMENT, MAPPED),
                  (Some LOCKED_FOR_VALIDATION, Act_VALIDATED, VALIDATED),
                  (Some LOCKED_FOR_VALIDATION, Act_MARK_BAD, BAD),
                  (Some LOCKED_FOR_VALIDATION, Act_COMMENT, LOCKED_FOR_VALIDATION),
                  (Some LOCKED_FOR_VALIDATION, Act_UNLOCK, MAPPED),
                  (Some VALIDATED, Act_MARK_BAD, reopen_status pol)}
               \<and> map task_status (filter (\<lambda>u. task_key u = task_key t) (tasks db'))
                   = [Some s'])
          \<and> filter (\<lambda>u. task_key u \<noteq> task_key t) (tasks db')
              = filter (\<lambda>u. task_key u \<noteq> task_key t) (tasks db)
          \<and> task_history db' = task_history db @ [row]
          \<and> th_task_id row = task_id t \<and> th_project_id row = Some (task_project_id t)
          \<and> th_action row = action \<and> th_user_id row = actor \<and> th_action_date row = now
          \<and> th_action_text row = action_text)
       \<and> (\<forall>holder. locked_by t = Some holder
            \<and> (holder \<noteq> actor \<or> action \<in> {Act_LOCK_FOR_MAPPING, Act_LOCK_FOR_VALIDATION}) \<longrightarrow>
            apply_action pol db (task_key t) action actor action_text now
              = (Inl (LockConflict holder), db))
       \<and> ((locked_by t = None
            \<or> (locked_by t = Some actor
               \<and> action \<notin> {Act_LOCK_FOR_MAPPING, Act_LOCK_FOR_VALIDATION}))
          \<and> (task_status t, action) \<notin>
              {(Some READY, Act_LOCK_FOR_MAPPING),
               (Some LOCKED_FOR_MAPPING, Act_MAPPED),
               (Some LOCKED_FOR_MAPPING, Act_COMMENT),
               (Some LOCKED_FOR_MAPPING, Act_UNLOCK),
               (Some MAPPED, Act_LOCK_FOR_VALIDATION),
               (Some MAPPED, Act_COMMENT),
               (Some LOCKED_FOR_VALIDATION, Act_VALIDATED),
               (Some LOCKED_FOR_VALIDATION, Act_MARK_BAD),
               (Some LOCKED_FOR_VALIDATION, Act_COMMENT),
               (Some LOCKED_FOR_VALIDATION, Act_UNLOCK),
               (Some VALIDATED, Act_MARK_BAD)} \<longrightarrow>
          apply_action pol db (task_key t) action actor action_text now
            = (Inl InvalidTransition, db))
       \<and> ((locked_by t = None
            \<or> (locked_by t = Some actor
               \<and> action \<notin> {Act_LOCK_FOR_MAPPING, Act_LOCK_FOR_VALIDATION}))
          \<and> (task_status t, action) \<in>
              {(Some READY, Act_LOCK_FOR_MAPPING),
               (Some LOCKED_FOR_MAPPING, Act_MAPPED),
               (Some LOCKED_FOR_MAPPING, Act_COMMENT),
               (Some LOCKED_FOR_MAPPING, Act_UNLOCK),
               (Some MAPPED, Act_LOCK_FOR_VALIDATION),
               (Some MAPPED, Act_COMMENT),
               (Some LOCKED_FOR_VALIDATION, Act_VALIDATED),
               (Some LOCKED_FOR_VALIDATION, Act_MARK_BAD),
               (Some LOCKED_FOR_VALIDATION, Act_COMMENT),
               (Some LOCKED_FOR_VALIDATION, Act_UNLOCK),
               (Some VALIDATED, Act_MARK_BAD)} \<longrightarrow>
          (\<exists>row db'. apply_action pol db (task_key t) action actor action_text now
             = (Inr row, db')))"
proof (intro conjI allI impI)
  fix row db'
  assume run: "apply_action pol db (task_key t) action actor action_text now = (Inr row, db')"
  from apply_action_result [OF assms run]
  obtain s' where lc: "lock_conflict t action actor = None"
    and tt: "(case task_status t of None \<Rightarrow> None | Some s \<Rightarrow> transition_table pol s action)
       = Some s'"
    and row: "row = fst (apply_transition db (task_key t) t action s' actor action_text now)"
    and db': "db' = snd (apply_transition db (task_key t) t action s' actor action_text now)"
    by blast
  from lc show "locked_by t = None
             \<or> (locked_by t = Some actor
                \<and> action \<notin> {Act_LOCK_FOR_MAPPING, Act_LOCK_FOR_VALIDATION})"
    by (simp only: lock_conflict_None_iff)
  have st: "map task_status (filter (\<lambda>u. task_key u = task_key t) (tasks db')) = [Some s']"
    unfolding db' tasks_apply_transition filter_key_update filter_by_task_key [OF assms]
    by simp
  from tt have mem: "(task_status t, action, s') \<in>
                 {(Some READY, Act_LOCK_FOR_MAPPING, LOCKED_FOR_MAPPING),
                  (Some LOCKED_FOR_MAPPING, Act_MAPPED, MAPPED),
                  (Some LOCKED_FOR_MAPPING, Act_COMMENT, LOCKED_FOR_MAPPING),
                  (Some LOCKED_FOR_MAPPING, Act_UNLOCK, READY),
                  (Some MAPPED, Act_LOCK_FOR_VALIDATION, LOCKED_FOR_VALIDATION),
                  (Some MAPPED, Act_COMMENT, MAPPED),
                  (Some LOCKED_FOR_VALIDATION, Act_VALIDATED, VALIDATED),
                  (Some LOCKED_FOR_VALIDATION, Act_MARK_BAD, BAD),
                  (Some LOCKED_FOR_VALIDATION, Act_COMMENT, LOCKED_FOR_VALIDATION),
                  (Some LOCKED_FOR_VALIDATION, Act_UNLOCK, MAPPED),
                  (Some VALIDATED, Act_MARK_BAD, reopen_status pol)}"
    by (simp only: status_transition_iff)
  show "\<exists>s'. (task_status t, action, s') \<in>
                 {(Some READY, Act_LOCK_FOR_MAPPING, LOCKED_FOR_MAPPING),
                  (Some LOCKED_FOR_MAPPING, Act_MAPPED, MAPPED),
                  (Some LOCKED_FOR_MAPPING, Act_COMMENT, LOCKED_FOR_MAPPING),
                  (Some LOCKED_FOR_MAPPING, Act_UNLOCK, READY),
                  (Some MAPPED, Act_LOCK_FOR_VALIDATION, LOCKED_FOR_VALIDATION),
                  (Some MAPPED, Act_COMMENT, MAPPED),
                  (Some LOCKED_FOR_VALIDATION, Act_VALIDATED, VALIDATED),
                  (Some LOCKED_FOR_VALIDATION, Act_MARK_BAD, BAD),
                  (Some LOCKED_FOR_VALIDATION, Act_COMMENT, LOCKED_FOR_VALIDATION),
                  (Some LOCKED_FOR_VALIDATION, Act_UNLOCK, MAPPED),
                  (Some VALIDATED, Act_MARK_BAD, reopen_status pol)}
               \<and> map task_status (filter (\<lambda>u. task_key u = task_key t) (tasks db'))
                   = [Some s']"
    by (rule exI [of _ s'], rule conjI, rule mem, rule st)
  show "filter (\<lambda>u. task_key u \<noteq> task_key t) (tasks db')
              = filter (\<lambda>u. task_key u \<noteq> task_key t) (tasks db)"
    unfolding db' tasks_apply_transition filter_other_update by (rule refl)
  show "task_history db' = task_history db @ [row]"
    unfolding db' row by (rule task_history_apply_transition)
  show "th_task_id row = task_id t" "th_project_id row = Some (task_project_id t)"
    "th_action row = action" "th_user_id row = actor" "th_action_date row = now"
    "th_action_text row = action_text"
    unfolding row by (simp_all add: row_apply_transition task_key_def)
next
  fix holder
  assume "locked_by t = Some holder
            \<and> (holder \<noteq> actor \<or> action \<in> {Act_LOCK_FOR_MAPPING, Act_LOCK_FOR_VALIDATION})"
  then have "lock_conflict t action actor = Some holder"
    by (simp only: lock_conflict_Some_iff)
  then show "apply_action pol db (task_key t) action actor action_text now
              = (Inl (LockConflict holder), db)"
    unfolding apply_action_found [OF assms] by simp
next
  assume a: "(locked_by t = None
            \<or> (locked_by t = Some actor
               \<and> action \<notin> {Act_LOCK_FOR_MAPPING, Act_LOCK_FOR_VALIDATION}))
          \<and> (task_status t, action) \<notin>
              {(Some READY, Act_LOCK_FOR_MAPPING),
               (Some LOCKED_FOR_MAPPING, Act_MAPPED),
               (Some LOCKED_FOR_MAPPING, Act_COMMENT),
               (Some LOCKED_FOR_MAPPING, Act_UNLOCK),
               (Some MAPPED, Act_LOCK_FOR_VALIDATION),
               (Some MAPPED, Act_COMMENT),
               (Some LOCKED_FOR_VALIDATION, Act_VALIDATED),
               (Some LOCKED_FOR_VALIDATION, Act_MARK_BAD),
               (Some LOCKED_FOR_VALIDATION, Act_COMMENT),
               (Some LOCKED_FOR_VALIDATION, Act_UNLOCK),
               (Some VALIDATED, Act_MARK_BAD)}"
  from a [THEN conjunct1] have lc: "lock_conflict t action actor = None"
    by (simp only: lock_conflict_None_iff)
  from a [THEN conjunct2]
  have "(case task_status t of None \<Rightarrow> None | Some s \<Rightarrow> transition_table pol s action) = None"
    by (simp only: status_transition_None_iff simp_thms)
  with lc show "apply_action pol db (task_key t) action actor action_text now
            = (Inl InvalidTransition, db)"
    unfolding apply_action_found [OF assms] by simp
next
  assume a: "(locked_by t = None
            \<or> (locked_by t = Some actor
               \<and> action \<notin> {Act_LOCK_FOR_MAPPING, Act_LOCK_FOR_VALIDATION}))
          \<and> (task_status t, action) \<in>
              {(Some READY, Act_LOCK_FOR_MAPPING),
               (Some LOCKED_FOR_MAPPING, Act_MAPPED),
               (Some LOCKED_FOR_MAPPING, Act_COMMENT),
               (Some LOCKED_FOR_MAPPING, Act_UNLOCK),
               (Some MAPPED, Act_LOCK_FOR_VALIDATION),
               (Some MAPPED, Act_COMMENT),
               (Some LOCKED_FOR_VALIDATION, Act_VALIDATED),
               (Some LOCKED_FOR_VALIDATION, Act_MARK_BAD),
               (Some LOCKED_FOR_VALIDATION, Act_COMMENT),
               (Some LOCKED_FOR_VALIDATION, Act_UNLOCK),
               (Some VALIDATED, Act_MARK_BAD)}"
  from a [THEN conjunct1] have lc: "lock_conflict t action actor = None"
    by (simp only: lock_conflict_None_iff)
  from a [THEN conjunct2]
  have "(case task_status t of None \<Rightarrow> None | Some s \<Rightarrow> transition_table pol s action)
      \<noteq> None"
    by (simp only: status_transition_None_iff simp_thms)
  then obtain s' where
    "(case task_status t of None \<Rightarrow> None | Some s \<Rightarrow> transition_table pol s action) = Some s'"
    by blast
  with lc show "\<exists>row db'. apply_action pol db (task_key t) action actor action_text now
             = (Inr row, db')"
    unfolding apply_action_found [OF assms] by simp
qed

text \<open>
  The task of the state below is locked for mapping by user 7. Their unlock succeeds
  and takes the task to \<open>READY\<close>, their attempt to validate fails with
  \<open>InvalidTransition\<close>, and whatever user 8 does fails with \<open>LockConflict\<close>.
\<close>

theorem apply_action_follows_table_witness:
  "pk_tasks locked_task_store
   \<and> (example_task 1 1 LOCKED_FOR_MAPPING)\<lparr>locked_by := Some 7\<rparr> \<in> set (tasks locked_task_store)
   \<and> (\<exists>row db'. apply_action Reopen_MAPPED locked_task_store (1, 1) Act_UNLOCK 7 None 100
          = (Inr row, db')
        \<and> map task_status (filter (\<lambda>u. task_key u = (1, 1)) (tasks db')) = [Some READY]
        \<and> task_history db' = [row])
   \<and> apply_action Reopen_MAPPED locked_task_store (1, 1) Act_VALIDATED 7 None 100
       = (Inl InvalidTransition, locked_task_store)
   \<and> apply_action Reopen_MAPPED locked_task_store (1, 1) Act_MAPPED 8 None 100
       = (Inl (LockConflict 7), locked_task_store)"
proof -
  let ?t = "(example_task 1 1 LOCKED_FOR_MAPPING)\<lparr>locked_by := Some 7\<rparr>"
  have pk: "pk_tasks locked_task_store"
    by code_simp
  have t: "?t \<in> set (tasks locked_task_store)"
    by (simp add: locked_task_store_def)
  have k: "task_key ?t = (1, 1)" "task_status ?t = Some LOCKED_FOR_MAPPING"
    "locked_by ?t = Some 7"
    by (simp_all add: task_key_def example_task_def)
  have h: "task_history locked_task_store = []"
    by (simp add: locked_task_store_def one_task_store_def empty_database_def)
  note u = apply_action_follows_table [OF pk t, of Reopen_MAPPED Act_UNLOCK 7 None 100,
      unfolded k]
  from u [THEN conjunct2, THEN conjunct2, THEN conjunct2]
  obtain row db' where run: "apply_action Reopen_MAPPED locked_task_store (1, 1) Act_UNLOCK 7
      None 100 = (Inr row, db')"
    by auto
  from u [THEN conjunct1, rule_format, OF run]
  have a: "map task_status (filter (\<lambda>u. task_key u = (1, 1)) (tasks db')) = [Some READY]"
    "task_history db' = [row]"
    by (auto simp: h)
  have b: "apply_action Reopen_MAPPED locked_task_store (1, 1) Act_VALIDATED 7 None 100
       = (Inl InvalidTransition, locked_task_store)"
    using apply_action_follows_table [OF pk t, of Reopen_MAPPED Act_VALIDATED 7 None 100,
      unfolded k, THEN conjunct2, THEN conjunct2, THEN conjunct1]
    by simp
  have c: "apply_action Reopen_MAPPED locked_task_store (1, 1) Act_MAPPED 8 None 100
       = (Inl (LockConflict 7), locked_task_store)"
    using apply_action_follows_table [OF pk t, of Reopen_MAPPED Act_MAPPED 8 None 100,
      unfolded k, THEN conjunct2, THEN conjunct1]
    by simp
  have ex: "\<exists>row db'. apply_action Reopen_MAPPED locked_task_store (1, 1) Act_UNLOCK 7 None 100
          = (Inr row, db')
        \<and> map task_status (filter (\<lambda>u. task_key u = (1, 1)) (tasks db')) = [Some READY]
        \<and> task_history db' = [row]"
    by (intro exI conjI) (rule run a)+
  show ?thesis
    by (intro conjI pk t ex b c)
qed

text \<open>
  Claim C1 as it is stated fails twice. Locking is not in the row of
  \<open>LOCKED_FOR_MAPPING\<close>, and the attempt of user 8 to lock the task that user 7 holds
  fails with \<open>LockConflict\<close> naming user 7, not with \<open>InvalidTransition\<close>. And
  \<open>VALIDATED\<close>, which has no row among the four of the claim, allows mark bad: the
  action succeeds on the validated task of the second state and reopens it.
\<close>

theorem apply_action_counterexample:
  "apply_action Reopen_MAPPED locked_task_store (1, 1) Act_LOCK_FOR_MAPPING 8 None 100
     = (Inl (LockConflict 7), locked_task_store)
   \<and> map task_status (tasks one_task_store) = [Some VALIDATED]
   \<and> fst (apply_action Reopen_MAPPED one_task_store (1, 1) Act_MARK_BAD 8 None 100)
     = Inr \<lparr>th_id = 1, th_project_id = Some 1, th_task_id = 1, th_action = Act_MARK_BAD,
            th_action_text = None, th_action_date = 100, th_user_id = 8\<rparr>
   \<and> map task_status
       (tasks (snd (apply_action Reopen_MAPPED one_task_store (1, 1) Act_MARK_BAD 8 None 100)))
     = [Some MAPPED]
   \<and> map task_status
       (tasks (snd (apply_action Reopen_LOCKED_FOR_VALIDATION one_task_store (1, 1)
          Act_MARK_BAD 8 None 100)))
     = [Some LOCKED_FOR_VALIDATION]"
proof -
  have a: "apply_action Reopen_MAPPED locked_task_store (1, 1) Act_LOCK_FOR_MAPPING 8 None 100
     = (Inl (LockConflict 7), locked_task_store)"
    by code_simp
  have b: "map task_status (tasks one_task_store) = [Some VALIDATED]"
    by code_simp
  have c: "fst (apply_action Reopen_MAPPED one_task_store (1, 1) Act_MARK_BAD 8 None 100)
     = Inr \<lparr>th_id = 1, th_project_id = Some 1, th_task_id = 1, th_action = Act_MARK_BAD,
            th_action_text = None, th_action_date = 100, th_user_id = 8\<rparr>"
    by code_simp
  have d: "map task_status
       (tasks (snd (apply_action Reopen_MAPPED one_task_store (1, 1) Act_MARK_BAD 8 None 100)))
     = [Some MAPPED]"
    by code_simp
  have e: "map task_status
       (tasks (snd (apply_action Reopen_LOCKED_FOR_VALIDATION one_task_store (1, 1)
          Act_MARK_BAD 8 None 100)))
     = [Some LOCKED_FOR_VALIDATION]"
    by code_simp
  from a b c d e show ?thesis by simp
qed

subsection \<open>Open invalidation records\<close>

lemma open_after_validation:
  "filter (\<lambda>v. (tih_task_id v, tih_project_id v) = k \<and> tih_is_closed v = Some False)
     (record_validation records k0 actor now)
   = (if k = k0 then []
      else filter (\<lambda>v. (tih_task_id v, tih_project_id v) = k \<and> tih_is_closed v = Some False)
             records)"
  unfolding record_validation_def
  by (induction records) auto

lemma closed_after_validation:
  "length (filter (\<lambda>v. (tih_task_id v, tih_project_id v) = k \<and> tih_is_closed v = Some True)
     (record_validation records k actor now))
   = length (filter (\<lambda>v. (tih_task_id v, tih_project_id v) = k \<and> tih_is_closed v = Some True)
       records)
     + length (filter (\<lambda>v. (tih_task_id v, tih_project_id v) = k \<and> tih_is_closed v = Some False)
         records)"
  unfolding record_validation_def
  by (induction records) auto

lemma open_after_invalidation:
  "filter (\<lambda>v. (tih_task_id v, tih_project_id v) = k \<and> tih_is_closed v = Some False)
     (record_invalidation records k0 task actor history_id now)
   = (if k = k0
      then [\<lparr>tih_id = 1 + fold max (map tih_id records) 0, tih_project_id = snd k0,
             tih_task_id = fst k0, tih_is_closed = Some False, tih_mapper_id = mapped_by task,
             tih_invalidator_id = Some actor, tih_invalidated_date = Some now,
             tih_invalidation_history_id = Some history_id, tih_validator_id = None,
             tih_validated_date = None\<rparr>]
      else filter (\<lambda>v. (tih_task_id v, tih_project_id v) = k \<and> tih_is_closed v = Some False)
             records)"
proof -
  have "filter (\<lambda>v. (tih_task_id v, tih_project_id v) = k \<and> tih_is_closed v = Some False)
     (map (\<lambda>v. if (tih_task_id v, tih_project_id v) = k0 \<and> tih_is_closed v = Some False
              then v\<lparr>tih_is_closed := Some True, tih_invalidator_id := Some actor,
                     tih_invalidated_date := Some now\<rparr>
              else v) records)
   = (if k = k0 then []
      else filter (\<lambda>v. (tih_task_id v, tih_project_id v) = k \<and> tih_is_closed v = Some False)
             records)"
    by (induction records) auto
  then show ?thesis
    unfolding record_invalidation_def by (cases k0) auto
qed

lemma closed_after_invalidation:
  assumes "filter (\<lambda>v. (tih_task_id v, tih_project_id v) = k \<and> tih_is_closed v = Some False)
      records = []"
  shows "filter (\<lambda>v. (tih_task_id v, tih_project_id v) = k \<and> tih_is_closed v = Some True)
     (record_invalidation records k task actor history_id now)
   = filter (\<lambda>v. (tih_task_id v, tih_project_id v) = k \<and> tih_is_closed v = Some True) records"
proof -
  from assms have "map (\<lambda>v. if (tih_task_id v, tih_project_id v) = k \<and> tih_is_closed v = Some False
              then v\<lparr>tih_is_closed := Some True, tih_invalidator_id := Some actor,
                     tih_invalidated_date := Some now\<rparr>
              else v) records = records"
    by (intro map_idI) (auto simp: filter_empty_conv)
  then show ?thesis
    unfolding record_invalidation_def by simp
qed

lemma open_records_apply_transition:
  "length (open_records (snd (apply_transition db k0 task action s' actor action_text now)) k)
     \<le> max 1 (length (open_records db k))"
  unfolding open_records_def task_invalidation_history_apply_transition
  by (simp add: open_after_validation open_after_invalidation)

lemma snd_apply_action:
  "snd (apply_action pol db k action actor action_text now) = db
   \<or> (\<exists>task s'. snd (apply_action pol db k action actor action_text now)
         = snd (apply_transition db k task action s' actor action_text now))"
  unfolding apply_action_def
  by (auto simp: split_beta split: option.splits)

lemma open_records_apply_action:
  "length (open_records (snd (apply_action pol db k0 action actor action_text now)) k)
     \<le> max 1 (length (open_records db k))"
  using snd_apply_action [of pol db k0 action actor action_text now]
    open_records_apply_transition [of db k0 _ action _ actor action_text now k]
  by (auto simp: max_def)

lemma single_open_record_step:
  assumes "\<forall>k. length (open_records db k) \<le> 1"
  shows "\<forall>k. length (open_records (snd (apply_action pol db k0 action actor action_text now)) k)
           \<le> 1"
proof
  fix k
  from assms have "length (open_records db k) \<le> 1"
    by (rule spec)
  then have "max 1 (length (open_records db k)) = 1"
    by (simp add: max_def)
  with open_records_apply_action [of pol db k0 action actor action_text now k]
  show "length (open_records (snd (apply_action pol db k0 action actor action_text now)) k) \<le> 1"
    by simp
qed

lemma single_open_record_reachable:
  assumes "reachable pol init db" "\<forall>k. length (open_records init k) \<le> 1"
  shows "\<forall>k. length (open_records db k) \<le> 1"
  using assms
proof (induction rule: reachable.induct)
  case start
  then show ?case by simp
next
  case (step db k action actor action_text now)
  then show ?case by (intro single_open_record_step) simp
qed

lemma reachable_trans:
  assumes "reachable pol mid db" "reachable pol init mid"
  shows "reachable pol init db"
  using assms
proof (induction rule: reachable.induct)
  case start
  then show ?case by simp
next
  case (step db k action actor action_text now)
  then show ?case by (intro reachable.step) simp
qed

lemma pk_tasks_apply_transition:
  assumes "pk_tasks db"
  shows "pk_tasks (snd (apply_transition db k task action s' actor action_text now))"
  using assms unfolding pk_tasks_def tasks_apply_transition map_task_key_update .

lemma task_apply_transition:
  assumes "t \<in> set (tasks db)"
  shows "step_task action s' actor t
    \<in> set (tasks (snd (apply_transition db (task_key t) task action s' actor action_text now)))"
  using assms unfolding tasks_apply_transition by auto

lemma apply_action_step:
  assumes "pk_tasks db" "t \<in> set (tasks db)" "lock_conflict t action actor = None"
    "task_status t = Some s" "transition_table pol s action = Some s'"
  shows "snd (apply_action pol db (task_key t) action actor action_text now)
    = snd (apply_transition db (task_key t) t action s' actor action_text now)"
  unfolding apply_action_found [OF assms(1,2)] using assms(3-5) by simp

lemma locked_by_step_task:
  "locked_by (step_task Act_MARK_BAD s' actor t)
     = (if s' = LOCKED_FOR_VALIDATION then Some actor else None)"
  "locked_by (step_task Act_LOCK_FOR_VALIDATION s' actor t) = Some actor"
  "locked_by (step_task Act_VALIDATED s' actor t) = None"
  by (simp_all add: step_task_def)

lemma invalidate_step:
  assumes pk: "pk_tasks db" and t: "t \<in> set (tasks db)"
    and s: "task_status t = Some VALIDATED" and l: "locked_by t = None"
    and o: "open_records db (task_key t) = []"
  shows "\<exists>t'. pk_tasks (snd (apply_action pol db (task_key t) Act_MARK_BAD actor action_text now))
    \<and> t' \<in> set (tasks (snd (apply_action pol db (task_key t) Act_MARK_BAD actor action_text now)))
    \<and> task_key t' = task_key t \<and> task_status t' = Some (reopen_status pol)
    \<and> locked_by t' = (if reopen_status pol = LOCKED_FOR_VALIDATION then Some actor else None)
    \<and> length (open_records
         (snd (apply_action pol db (task_key t) Act_MARK_BAD actor action_text now)) (task_key t))
       = 1
    \<and> closed_records
         (snd (apply_action pol db (task_key t) Act_MARK_BAD actor action_text now)) (task_key t)
       = closed_records db (task_key t)"
proof -
  have lc: "lock_conflict t Act_MARK_BAD actor = None"
    using l by (simp add: lock_conflict_def)
  have tt: "transition_table pol VALIDATED Act_MARK_BAD = Some (reopen_status pol)"
    by simp
  note eq = apply_action_step [OF pk t lc s tt]
  have h: "task_invalidation_history
        (snd (apply_transition db (task_key t) t Act_MARK_BAD (reopen_status pol) actor
           action_text now))
      = record_invalidation (task_invalidation_history db) (task_key t) t actor
          (1 + fold max (map th_id (task_history db)) 0) now"
    by (simp add: task_invalidation_history_apply_transition s)
  have a: "length (open_records
         (snd (apply_transition db (task_key t) t Act_MARK_BAD (reopen_status pol) actor
            action_text now)) (task_key t)) = 1"
    unfolding open_records_def h open_after_invalidation by simp
  have b: "closed_records
         (snd (apply_transition db (task_key t) t Act_MARK_BAD (reopen_status pol) actor
            action_text now)) (task_key t) = closed_records db (task_key t)"
    unfolding closed_records_def h
    by (rule closed_after_invalidation) (use o in \<open>simp add: open_records_def\<close>)
  show ?thesis
    unfolding eq
    by (intro exI [of _ "step_task Act_MARK_BAD (reopen_status pol) actor t"] conjI
        pk_tasks_apply_transition [OF pk] task_apply_transition [OF t] a b
        task_key_step_task task_status_step_task locked_by_step_task)
qed

lemma lock_for_validation_step:
  assumes pk: "pk_tasks db" and t: "t \<in> set (tasks db)"
    and s: "task_status t = Some MAPPED" and l: "locked_by t = None"
  shows "\<exists>t'. pk_tasks
      (snd (apply_action pol db (task_key t) Act_LOCK_FOR_VALIDATION actor action_text now))
    \<and> t' \<in> set (tasks
        (snd (apply_action pol db (task_key t) Act_LOCK_FOR_VALIDATION actor action_text now)))
    \<and> task_key t' = task_key t \<and> task_status t' = Some LOCKED_FOR_VALIDATION
    \<and> locked_by t' = Some actor
    \<and> task_invalidation_history
        (snd (apply_action pol db (task_key t) Act_LOCK_FOR_VALIDATION actor action_text now))
       = task_invalidation_history db"
proof -
  have lc: "lock_conflict t Act_LOCK_FOR_VALIDATION actor = None"
    using l by (simp add: lock_conflict_def)
  have tt: "transition_table pol MAPPED Act_LOCK_FOR_VALIDATION = Some LOCKED_FOR_VALIDATION"
    by simp
  note eq = apply_action_step [OF pk t lc s tt]
  have h: "task_invalidation_history
        (snd (apply_transition db (task_key t) t Act_LOCK_FOR_VALIDATION LOCKED_FOR_VALIDATION
           actor action_text now))
      = task_invalidation_history db"
    by (simp add: task_invalidation_history_apply_transition)
  show ?thesis
    unfolding eq
    by (intro exI [of _ "step_task Act_LOCK_FOR_VALIDATION LOCKED_FOR_VALIDATION actor t"] conjI
        pk_tasks_apply_transition [OF pk] task_apply_transition [OF t] h
        task_key_step_task task_status_step_task locked_by_step_task)
qed

lemma validate_step:
  assumes pk: "pk_tasks db" and t: "t \<in> set (tasks db)"
    and s: "task_status t = Some LOCKED_FOR_VALIDATION" and l: "locked_by t = Some actor"
  shows "\<exists>t'. pk_tasks (snd (apply_action pol db (task_key t) Act_VALIDATED actor action_text now))
    \<and> t' \<in> set (tasks
        (snd (apply_action pol db (task_key t) Act_VALIDATED actor action_text now)))
    \<and> task_key t' = task_key t \<and> task_status t' = Some VALIDATED
    \<and> locked_by t' = None
    \<and> open_records
         (snd (apply_action pol db (task_key t) Act_VALIDATED actor action_text now)) (task_key t)
       = []
    \<and> length (closed_records
         (snd (apply_action pol db (task_key t) Act_VALIDATED actor action_text now)) (task_key t))
       = length (closed_records db (task_key t)) + length (open_records db (task_key t))"
proof -
  have lc: "lock_conflict t Act_VALIDATED actor = None"
    using l by (simp add: lock_conflict_def)
  have tt: "transition_table pol LOCKED_FOR_VALIDATION Act_VALIDATED = Some VALIDATED"
    by simp
  note eq = apply_action_step [OF pk t lc s tt]
  have h: "task_invalidation_history
        (snd (apply_transition db (task_key t) t Act_VALIDATED VALIDATED actor action_text now))
      = record_validation (task_invalidation_history db) (task_key t) actor now"
    by (simp add: task_invalidation_history_apply_transition)
  have a: "open_records
         (snd (apply_transition db (task_key t) t Act_VALIDATED VALIDATED actor action_text now))
         (task_key t) = []"
    unfolding open_records_def h open_after_validation by simp
  have b: "length (closed_records
         (snd (apply_transition db (task_key t) t Act_VALIDATED VALIDATED actor action_text now))
         (task_key t))
       = length (closed_records db (task_key t)) + length (open_records db (task_key t))"
    unfolding closed_records_def open_records_def h by (rule closed_after_validation)
  show ?thesis
    unfolding eq
    by (intro exI [of _ "step_task Act_VALIDATED VALIDATED actor t"] conjI
        pk_tasks_apply_transition [OF pk] task_apply_transition [OF t] a b
        task_key_step_task task_status_step_task locked_by_step_task)
qed

lemma invalidation_cycle:
  assumes pk: "pk_tasks db" and t: "t \<in> set (tasks db)"
    and s: "task_status t = Some VALIDATED" and l: "locked_by t = None"
    and o: "open_records db (task_key t) = []"
  shows "\<exists>db' t'. reachable pol db db' \<and> pk_tasks db' \<and> t' \<in> set (tasks db')
    \<and> task_key t' = task_key t \<and> task_status t' = Some VALIDATED \<and> locked_by t' = None
    \<and> open_records db' (task_key t) = []
    \<and> length (closed_records db' (task_key t)) = Suc (length (closed_records db (task_key t)))"
proof -
  define db1 where "db1 = snd (apply_action pol db (task_key t) Act_MARK_BAD 0 None 0)"
  have r1: "reachable pol db db1"
    unfolding db1_def by (intro reachable.step reachable.start)
  from invalidate_step [OF pk t s l o, of pol 0 None 0]
  obtain t1 where pk1: "pk_tasks db1" and t1: "t1 \<in> set (tasks db1)"
    and k1: "task_key t1 = task_key t" and s1: "task_status t1 = Some (reopen_status pol)"
    and l1: "locked_by t1 = (if reopen_status pol = LOCKED_FOR_VALIDATION then Some 0 else None)"
    and o1: "length (open_records db1 (task_key t)) = 1"
    and c1: "closed_records db1 (task_key t) = closed_records db (task_key t)"
    unfolding db1_def by blast
  have "\<exists>db2 t2. reachable pol db db2 \<and> pk_tasks db2 \<and> t2 \<in> set (tasks db2)
      \<and> task_key t2 = task_key t \<and> task_status t2 = Some LOCKED_FOR_VALIDATION
      \<and> locked_by t2 = Some 0
      \<and> task_invalidation_history db2 = task_invalidation_history db1"
  proof (cases pol)
    case Reopen_LOCKED_FOR_VALIDATION
    with s1 l1 have "task_status t1 = Some LOCKED_FOR_VALIDATION" "locked_by t1 = Some 0"
      by simp_all
    with r1 pk1 t1 k1 show ?thesis by blast
  next
    case Reopen_MAPPED
    with s1 l1 have m: "task_status t1 = Some MAPPED" "locked_by t1 = None"
      by simp_all
    define db2 where
      "db2 = snd (apply_action pol db1 (task_key t1) Act_LOCK_FOR_VALIDATION 0 None 0)"
    have r2: "reachable pol db db2"
      unfolding db2_def by (intro reachable.step r1)
    from lock_for_validation_step [OF pk1 t1 m, of pol 0 None 0]
    obtain t2 where "pk_tasks db2" "t2 \<in> set (tasks db2)" "task_key t2 = task_key t1"
      "task_status t2 = Some LOCKED_FOR_VALIDATION" "locked_by t2 = Some 0"
      "task_invalidation_history db2 = task_invalidation_history db1"
      unfolding db2_def by blast
    with r2 k1 show ?thesis by metis
  qed
  then obtain db2 t2 where r2: "reachable pol db db2" and pk2: "pk_tasks db2"
    and t2: "t2 \<in> set (tasks db2)" and k2: "task_key t2 = task_key t"
    and s2: "task_status t2 = Some LOCKED_FOR_VALIDATION" and l2: "locked_by t2 = Some 0"
    and h2: "task_invalidation_history db2 = task_invalidation_history db1"
    by blast
  from h2 have oc2: "open_records db2 (task_key t) = open_records db1 (task_key t)"
    "closed_records db2 (task_key t) = closed_records db1 (task_key t)"
    by (simp_all add: open_records_def closed_records_def)
  define db3 where "db3 = snd (apply_action pol db2 (task_key t2) Act_VALIDATED 0 None 0)"
  have r3: "reachable pol db db3"
    unfolding db3_def by (intro reachable.step r2)
  from validate_step [OF pk2 t2 s2 l2, of pol None 0]
  obtain t3 where "pk_tasks db3" "t3 \<in> set (tasks db3)" "task_key t3 = task_key t"
    "task_status t3 = Some VALIDATED" "locked_by t3 = None"
    "open_records db3 (task_key t) = []"
    "length (closed_records db3 (task_key t))
       = length (closed_records db2 (task_key t)) + length (open_records db2 (task_key t))"
    unfolding db3_def k2 by blast
  with r3 oc2 o1 c1 show ?thesis
    by (intro exI [of _ db3] exI [of _ t3]) simp
qed

lemma closed_records_accumulate:
  assumes pk: "pk_tasks db" and t: "t \<in> set (tasks db)"
    and s: "task_status t = Some VALIDATED" and l: "locked_by t = None"
    and o: "open_records db (task_key t) = []"
  shows "\<exists>db' t'. reachable pol db db' \<and> pk_tasks db' \<and> t' \<in> set (tasks db')
    \<and> task_key t' = task_key t \<and> task_status t' = Some VALIDATED \<and> locked_by t' = None
    \<and> open_records db' (task_key t) = []
    \<and> length (closed_records db' (task_key t)) = length (closed_records db (task_key t)) + n"
proof (induction n)
  case 0
  from pk t s l o reachable.start [of pol db] show ?case
    by (intro exI [of _ db] exI [of _ t]) simp
next
  case (Suc n)
  then obtain db' t' where r: "reachable pol db db'" and pk': "pk_tasks db'"
    and t': "t' \<in> set (tasks db')" and k': "task_key t' = task_key t"
    and s': "task_status t' = Some VALIDATED" and l': "locked_by t' = None"
    and o': "open_records db' (task_key t) = []"
    and c': "length (closed_records db' (task_key t))
       = length (closed_records db (task_key t)) + n"
    by blast
  from invalidation_cycle [OF pk' t' s' l', of pol] o' k'
  obtain db'' t'' where r': "reachable pol db' db''" and "pk_tasks db''"
    "t'' \<in> set (tasks db'')" "task_key t'' = task_key t"
    "task_status t'' = Some VALIDATED" "locked_by t'' = None"
    "open_records db'' (task_key t) = []"
    "length (closed_records db'' (task_key t)) = Suc (length (closed_records db' (task_key t)))"
    by auto
  with reachable_trans [OF r' r] c' show ?case
    by (intro exI [of _ db''] exI [of _ t'']) simp
qed

text \<open>
  Claim C4. The operations on the invalidation history are those of \<^verbatim>\<open>apply_action\<close>:
  an invalidation closes the open record of the task and opens one, a validation
  closes the open record. When no task has more than one open record, no task has more
  than one after any call of \<^verbatim>\<open>apply_action\<close>, whether it succeeds or fails; so no
  task has more than one open record in any state reached, by any number of calls, from
  a state where none has. And closed records accumulate: from a state with a validated,
  unlocked task that has no open record, for every number \<open>n\<close> a state is reached where
  the task has \<open>n\<close> closed records more, and no open one.
\<close>

theorem single_open_record_invariant:
  "((\<forall>k. length (open_records db k) \<le> 1) \<longrightarrow>
      (\<forall>k. length
         (open_records (snd (apply_action pol db key action actor action_text now)) k) \<le> 1))
   \<and> ((\<forall>k. length (open_records init k) \<le> 1) \<and> reachable pol init db' \<longrightarrow>
        (\<forall>k. length (open_records db' k) \<le> 1))
   \<and> (pk_tasks db \<and> t \<in> set (tasks db) \<and> task_status t = Some VALIDATED
        \<and> locked_by t = None \<and> open_records db (task_key t) = [] \<longrightarrow>
        (\<exists>db''. reachable pol db db'' \<and> open_records db'' (task_key t) = []
           \<and> length (closed_records db'' (task_key t))
               = length (closed_records db (task_key t)) + n))"
proof (intro conjI impI)
  assume "\<forall>k. length (open_records db k) \<le> 1"
  then show "\<forall>k. length
         (open_records (snd (apply_action pol db key action actor action_text now)) k) \<le> 1"
    by (rule single_open_record_step)
next
  assume "(\<forall>k. length (open_records init k) \<le> 1) \<and> reachable pol init db'"
  then show "\<forall>k. length (open_records db' k) \<le> 1"
    using single_open_record_reachable [of pol init db'] by blast
next
  assume a: "pk_tasks db \<and> t \<in> set (tasks db) \<and> task_status t = Some VALIDATED
        \<and> locked_by t = None \<and> open_records db (task_key t) = []"
  then have "\<exists>db'' t'. reachable pol db db'' \<and> pk_tasks db'' \<and> t' \<in> set (tasks db'')
    \<and> task_key t' = task_key t \<and> task_status t' = Some VALIDATED \<and> locked_by t' = None
    \<and> open_records db'' (task_key t) = []
    \<and> length (closed_records db'' (task_key t)) = length (closed_records db (task_key t)) + n"
    by (intro closed_records_accumulate) simp_all
  then show "\<exists>db''. reachable pol db db'' \<and> open_records db'' (task_key t) = []
           \<and> length (closed_records db'' (task_key t))
               = length (closed_records db (task_key t)) + n"
    by blast
qed

text \<open>
  The round trip of the specification on the validated task of the example: user 8
  invalidates it at time 100, user 9 locks it and validates it again at time 200. After
  the invalidation the task has one open record; in the end the table holds exactly
  one record, closed, with both actors and both dates.
\<close>

theorem single_open_record_invariant_witness:
  "(\<forall>k. length (open_records one_task_store k) \<le> 1)
   \<and> (\<forall>k. length
        (open_records
           (snd (apply_action Reopen_MAPPED one_task_store (1, 1) Act_MARK_BAD 8 None 100)) k)
        \<le> 1)
   \<and> length
       (open_records
          (snd (apply_action Reopen_MAPPED one_task_store (1, 1) Act_MARK_BAD 8 None 100))
          (1, 1))
     = 1
   \<and> task_invalidation_history
       (snd (apply_action Reopen_MAPPED
          (snd (apply_action Reopen_MAPPED
             (snd (apply_action Reopen_MAPPED one_task_store (1, 1) Act_MARK_BAD 8 None 100))
             (1, 1) Act_LOCK_FOR_VALIDATION 9 None 150))
          (1, 1) Act_VALIDATED 9 None 200))
     = [\<lparr>tih_id = 1, tih_project_id = 1, tih_task_id = 1, tih_is_closed = Some True,
         tih_mapper_id = None, tih_invalidator_id = Some 8, tih_invalidated_date = Some 100,
         tih_invalidation_history_id = Some 1, tih_validator_id = Some 9,
         tih_validated_date = Some 200\<rparr>]"
proof -
  have a: "\<forall>k. length (open_records one_task_store k) \<le> 1"
    by (simp add: open_records_def one_task_store_def empty_database_def)
  from single_open_record_invariant [of one_task_store Reopen_MAPPED "(1, 1)" Act_MARK_BAD 8
      None 100, THEN conjunct1, THEN mp, OF a]
  have b: "\<forall>k. length
        (open_records
           (snd (apply_action Reopen_MAPPED one_task_store (1, 1) Act_MARK_BAD 8 None 100)) k)
        \<le> 1" .
  have c: "length
       (open_records
          (snd (apply_action Reopen_MAPPED one_task_store (1, 1) Act_MARK_BAD 8 None 100))
          (1, 1))
     = 1"
    by code_simp
  have d: "task_invalidation_history
       (snd (apply_action Reopen_MAPPED
          (snd (apply_action Reopen_MAPPED
             (snd (apply_action Reopen_MAPPED one_task_store (1, 1) Act_MARK_BAD 8 None 100))
             (1, 1) Act_LOCK_FOR_VALIDATION 9 None 150))
          (1, 1) Act_VALIDATED 9 None 200))
     = [\<lparr>tih_id = 1, tih_project_id = 1, tih_task_id = 1, tih_is_closed = Some True,
         tih_mapper_id = None, tih_invalidator_id = Some 8, tih_invalidated_date = Some 100,
         tih_invalidation_history_id = Some 1, tih_validator_id = Some 9,
         tih_validated_date = Some 200\<rparr>]"
    by code_simp
  show ?thesis
    by (intro conjI a b c d)
qed

end
